theory Spec2Isabelle
  imports Complex_Main "HOL-Library.AList"
begin

section \<open>Supervolt BMS plugin: telemetry record and frame decoder\<close>

text \<open>
  The development follows \<^verbatim>\<open>custom_components/bms_ble/plugins/supervolt_bms.py\<close>
  and \<^verbatim>\<open>custom_components/bms_ble/config_flow.py\<close>.

  Conventions of the embedding.
  \<^item> A Python \<^verbatim>\<open>bytes\<close> object is a \<open>string\<close> (a list of 8-bit characters).
  \<^item> A Python \<^verbatim>\<open>float\<close> is a \<open>rat\<close>: the quotients \<^verbatim>\<open>n / 1000.0\<close>,
    \<^verbatim>\<open>n / 100.0\<close>, \<^verbatim>\<open>n / 10.0\<close> and the sums are exact, the rounding of IEEE doubles
    is not modelled. Rounding is monotone and \<open>500.0\<close> and \<open>0.0\<close> are doubles, so the
    comparisons of the source with \<open>500\<close> and the truth value of a stored \<open>0\<close> are the same
    in both readings.
  \<^item> \<^verbatim>\<open>time.time()\<close> is a parameter \<open>now\<close> of the function that reads the clock.
  \<^item> An attribute that is \<^verbatim>\<open>None\<close> or not yet created is \<open>None\<close>.
  \<^item> The calls of the logger change nothing and are left out; \<^verbatim>\<open>verbose\<close> is the
    class constant \<^verbatim>\<open>False\<close>, so its branches never run.
  \<^item> The built-in \<^verbatim>\<open>int(b.decode(), 16)\<close> is a parameter \<open>hx\<close> of the decoder:
    \<open>hx b = None\<close> when \<^verbatim>\<open>decode\<close> or \<^verbatim>\<open>int\<close> raises. The theorems hold for every
    \<open>hx\<close>; \<open>hexint\<close> below is the instance used to evaluate concrete frames.
\<close>

type_synonym bytes = string

datatype exn = ValueError | IndexError | TypeError | KeyError
  | AssertionError | TimeoutError | BleakError

record SupervoltData =
  cellV :: "rat option list"
  totalV :: "rat option"
  soc :: "int option"
  workingState :: "int option"
  alarm :: "int option"
  chargingA :: "rat option"
  dischargingA :: "rat option"
  loadA :: "rat option"
  tempC :: "int option list"
  completeAh :: "rat option"
  remainingAh :: "rat option"
  designedAh :: "rat option"
  lastUpdatetime :: rat
  address :: "int option"
  command :: "int option"
  version :: "int option"
  length_field :: "int option"
  balanceState :: "int option"
  dischargeNumber :: "int option"
  chargeNumber :: "int option"

text \<open>
  \<^verbatim>\<open>SupervoltData()\<close>: the class attributes, with \<^verbatim>\<open>tempC\<close> and \<^verbatim>\<open>cellV\<close> replaced by
  the lists of \<^verbatim>\<open>__init__\<close>. \<open>t0\<close> is the value \<^verbatim>\<open>time.time()\<close> had when the class body
  ran. The attributes \<^verbatim>\<open>address\<close>, \<^verbatim>\<open>command\<close>, \<^verbatim>\<open>version\<close>, \<^verbatim>\<open>length\<close>,
  \<^verbatim>\<open>balanceState\<close>, \<^verbatim>\<open>dischargeNumber\<close> and \<^verbatim>\<open>chargeNumber\<close> do not exist yet.
\<close>

definition new_SupervoltData :: "rat \<Rightarrow> SupervoltData" where
  "new_SupervoltData t0 =
     \<lparr> cellV = replicate 16 None, totalV = None, soc = None, workingState = None,
       alarm = None, chargingA = None, dischargingA = None, loadA = None,
       tempC = replicate 4 None, completeAh = None, remainingAh = None,
       designedAh = None, lastUpdatetime = t0, address = None, command = None,
       version = None, length_field = None, balanceState = None,
       dischargeNumber = None, chargeNumber = None \<rparr>"

text \<open>
  What holds of every record the program builds: the two lists keep the lengths
  \<^verbatim>\<open>__init__\<close> gave them, and the cell slots 11 to 15, which nothing writes, are
  \<^verbatim>\<open>None\<close>.
\<close>

definition well_formed :: "SupervoltData \<Rightarrow> bool" where
  "well_formed r \<longleftrightarrow> length (cellV r) = 16 \<and> length (tempC r) = 4
            \<and> drop 11 (cellV r) = replicate 5 None"

subsection \<open>Statements that may raise\<close>

text \<open>
  A statement of a \<^verbatim>\<open>try\<close> body maps the record to the record it leaves behind and the
  exception it raised, if any. A block runs its statements in order and stops at the
  first one that raises, keeping the record as it is at that moment.
\<close>

type_synonym 's prog = "'s \<Rightarrow> exn option \<times> 's"

type_synonym stmt = "SupervoltData prog"

definition assign :: "(SupervoltData \<Rightarrow> SupervoltData) \<Rightarrow> stmt" where
  "assign f r = (None, f r)"

fun block :: "'s prog list \<Rightarrow> 's prog" where
  "block [] r = (None, r)"
| "block (s # ss) r =
     (case s r of (None, r') \<Rightarrow> block ss r' | (Some e, r') \<Rightarrow> (Some e, r'))"

text \<open>\<^verbatim>\<open>data[s:e]\<close> for \<open>0 \<le> s \<le> e\<close>: a slice never raises, it is cut at the end.\<close>

definition slice :: "'a list \<Rightarrow> nat \<Rightarrow> nat \<Rightarrow> 'a list" where
  "slice xs s e = take (e - s) (drop s xs)"

text \<open>\<^verbatim>\<open>self.f = g(int(data[s:e].decode(), 16))\<close>: raises before anything is stored.\<close>

definition hex_assign ::
  "(bytes \<Rightarrow> int option) \<Rightarrow> bytes \<Rightarrow> nat \<Rightarrow> nat \<Rightarrow> (int \<Rightarrow> SupervoltData \<Rightarrow> SupervoltData) \<Rightarrow> stmt"
where
  "hex_assign hx data s e upd r =
     (case hx (slice data s e) of
        None \<Rightarrow> (Some ValueError, r)
      | Some v \<Rightarrow> (None, upd v r))"

subsection \<open>The 128-byte realtime frame\<close>

text \<open>Lines 77-99 (and 203-225): address, command, version, length.\<close>

definition header :: "(bytes \<Rightarrow> int option) \<Rightarrow> bytes \<Rightarrow> stmt list" where
  "header hx data =
     [ hex_assign hx data 1 3 (\<lambda>v r. r\<lparr>address := Some v\<rparr>),
       hex_assign hx data 3 5 (\<lambda>v r. r\<lparr>command := Some v\<rparr>),
       hex_assign hx data 5 7 (\<lambda>v r. r\<lparr>version := Some v\<rparr>),
       hex_assign hx data 7 11 (\<lambda>v r. r\<lparr>length_field := Some v\<rparr>) ]"

text \<open>
  Lines 114-116, the body of the loop over the cells, with \<open>start = 25\<close>:
  \<^verbatim>\<open>self.cellV[i] = int(bvolt.decode(), 16) / 1000.0\<close> and
  \<^verbatim>\<open>self.totalV += self.cellV[i]\<close>.
\<close>

definition cell_slot :: "bytes \<Rightarrow> nat \<Rightarrow> bytes" where
  "cell_slot data i = slice data (25 + i * 4) (25 + i * 4 + 4)"

definition cell_store :: "(bytes \<Rightarrow> int option) \<Rightarrow> bytes \<Rightarrow> nat \<Rightarrow> stmt" where
  "cell_store hx data i r =
     (case hx (cell_slot data i) of
        None \<Rightarrow> (Some ValueError, r)
      | Some v \<Rightarrow>
          if i < length (cellV r)
          then (None, r\<lparr>cellV := (cellV r)[i := Some (of_int v / 1000)]\<rparr>)
          else (Some IndexError, r))"

definition cell_add :: "nat \<Rightarrow> stmt" where
  "cell_add i r =
     (if i < length (cellV r)
      then (case (totalV r, cellV r ! i) of
              (Some t, Some c) \<Rightarrow> (None, r\<lparr>totalV := Some (t + c)\<rparr>)
            | _ \<Rightarrow> (Some TypeError, r))
      else (Some IndexError, r))"

definition cell_stmt :: "(bytes \<Rightarrow> int option) \<Rightarrow> bytes \<Rightarrow> nat \<Rightarrow> stmt" where
  "cell_stmt hx data i = block [cell_store hx data i, cell_add i]"

text \<open>Lines 111-116: \<^verbatim>\<open>self.totalV = 0\<close>, then the loop when \<^verbatim>\<open>self.cellV\<close> is not empty.\<close>

definition cells :: "(bytes \<Rightarrow> int option) \<Rightarrow> bytes \<Rightarrow> stmt list" where
  "cells hx data =
     [ assign (\<lambda>r. r\<lparr>totalV := Some 0\<rparr>),
       (\<lambda>r. if cellV r \<noteq> [] then block (map (cell_stmt hx data) [0..<11]) r
            else (None, r)) ]"

text \<open>
  Lines 123-145: the two currents, each set to \<open>0.0\<close> when it is above 500, and
  \<^verbatim>\<open>self.loadA = -self.chargingA + self.dischargingA\<close>.
\<close>

definition clamp_charging :: stmt where
  "clamp_charging r =
     (case chargingA r of
        None \<Rightarrow> (Some TypeError, r)
      | Some c \<Rightarrow> (None, if c > 500 then r\<lparr>chargingA := Some 0\<rparr> else r))"

definition clamp_discharging :: stmt where
  "clamp_discharging r =
     (case dischargingA r of
        None \<Rightarrow> (Some TypeError, r)
      | Some d \<Rightarrow> (None, if d > 500 then r\<lparr>dischargingA := Some 0\<rparr> else r))"

definition set_loadA :: stmt where
  "set_loadA r =
     (case (chargingA r, dischargingA r) of
        (Some c, Some d) \<Rightarrow> (None, r\<lparr>loadA := Some (- c + d)\<rparr>)
      | _ \<Rightarrow> (Some TypeError, r))"

definition currents :: "(bytes \<Rightarrow> int option) \<Rightarrow> bytes \<Rightarrow> stmt list" where
  "currents hx data =
     [ hex_assign hx data 89 93 (\<lambda>v r. r\<lparr>chargingA := Some (of_int v / 100)\<rparr>),
       clamp_charging,
       hex_assign hx data 93 97 (\<lambda>v r. r\<lparr>dischargingA := Some (of_int v / 100)\<rparr>),
       clamp_discharging,
       set_loadA ]"

text \<open>
  Lines 147-152: four temperatures of two bytes each from offset 97; the offsets advance
  also when \<^verbatim>\<open>self.tempC\<close> is empty.
\<close>

definition temp_stmt :: "(bytes \<Rightarrow> int option) \<Rightarrow> bytes \<Rightarrow> nat \<Rightarrow> stmt" where
  "temp_stmt hx data i r =
     (if tempC r \<noteq> []
      then (case hx (slice data (97 + i * 2) (97 + i * 2 + 2)) of
              None \<Rightarrow> (Some ValueError, r)
            | Some v \<Rightarrow>
                if i < length (tempC r)
                then (None, r\<lparr>tempC := (tempC r)[i := Some (v - 40)]\<rparr>)
                else (Some IndexError, r))
      else (None, r))"

text \<open>Lines 156-190: the status fields.\<close>

definition status :: "(bytes \<Rightarrow> int option) \<Rightarrow> bytes \<Rightarrow> stmt list" where
  "status hx data =
     [ hex_assign hx data 105 109 (\<lambda>v r. r\<lparr>workingState := Some v\<rparr>),
       hex_assign hx data 109 111 (\<lambda>v r. r\<lparr>alarm := Some v\<rparr>),
       hex_assign hx data 111 115 (\<lambda>v r. r\<lparr>balanceState := Some v\<rparr>),
       hex_assign hx data 115 119 (\<lambda>v r. r\<lparr>dischargeNumber := Some v\<rparr>),
       hex_assign hx data 119 123 (\<lambda>v r. r\<lparr>chargeNumber := Some v\<rparr>),
       hex_assign hx data 123 125 (\<lambda>v r. r\<lparr>soc := Some v\<rparr>) ]"

text \<open>Lines 194 and 251: \<^verbatim>\<open>self.lastUpdatetime = time.time()\<close>.\<close>

definition stamp :: "rat \<Rightarrow> stmt" where
  "stamp now = assign (\<lambda>r. r\<lparr>lastUpdatetime := now\<rparr>)"

definition realtime_fields :: "(bytes \<Rightarrow> int option) \<Rightarrow> bytes \<Rightarrow> stmt list" where
  "realtime_fields hx data =
     header hx data @ cells hx data @ currents hx data
       @ map (temp_stmt hx data) [0..<4] @ status hx data"

definition realtime :: "(bytes \<Rightarrow> int option) \<Rightarrow> rat \<Rightarrow> bytes \<Rightarrow> stmt list" where
  "realtime hx now data = realtime_fields hx data @ [stamp now]"

subsection \<open>The 30-byte capacity frame\<close>

text \<open>Lines 203-251: the header, four unused bytes, three capacities, the time stamp.\<close>

definition capacity_fields :: "(bytes \<Rightarrow> int option) \<Rightarrow> bytes \<Rightarrow> stmt list" where
  "capacity_fields hx data =
     header hx data @
     [ hex_assign hx data 15 19 (\<lambda>v r. r\<lparr>remainingAh := Some (of_int v / 10)\<rparr>),
       hex_assign hx data 19 23 (\<lambda>v r. r\<lparr>completeAh := Some (of_int v / 10)\<rparr>),
       hex_assign hx data 23 27 (\<lambda>v r. r\<lparr>designedAh := Some (of_int v / 10)\<rparr>) ]"

definition capacity :: "(bytes \<Rightarrow> int option) \<Rightarrow> rat \<Rightarrow> bytes \<Rightarrow> stmt list" where
  "capacity hx now data = capacity_fields hx data @ [stamp now]"

subsection \<open>parse\<close>

text \<open>
  The body of the \<^verbatim>\<open>try\<close> of \<^verbatim>\<open>parse\<close> (lines 66-256). The argument is a \<^verbatim>\<open>bytes\<close>
  or \<^verbatim>\<open>bytearray\<close>, as the notification callback receives it.
\<close>

definition parse_body :: "(bytes \<Rightarrow> int option) \<Rightarrow> rat \<Rightarrow> bytes \<Rightarrow> stmt" where
  "parse_body hx now data r =
     (if data \<noteq> [] then
        if length data = 128 then block (realtime hx now data) r
        else if length data = 30 then block (capacity hx now data) r
        else (None, r)
      else (None, r))"

text \<open>
  \<^verbatim>\<open>parse\<close>: the bare \<^verbatim>\<open>except\<close> logs whatever was raised and returns, so the caller
  gets the record as the body left it and never an exception.
\<close>

definition parse :: "(bytes \<Rightarrow> int option) \<Rightarrow> rat \<Rightarrow> SupervoltData \<Rightarrow> bytes \<Rightarrow> SupervoltData" where
  "parse hx now r data = snd (parse_body hx now data r)"

subsection \<open>A reader of plain hexadecimal text\<close>

text \<open>
  \<open>hexint\<close> reads a non-empty run of the digits \<open>0-9\<close>, \<open>a-f\<close>, \<open>A-F\<close> and rejects
  everything else. On such text, and on text with a letter that is no hexadecimal digit,
  it agrees with \<^verbatim>\<open>int(b.decode(), 16)\<close>; the signs, blanks, prefixes and underscores
  Python also accepts are not used in the frames evaluated here.
\<close>

definition hexdigit :: "char \<Rightarrow> nat option" where
  "hexdigit c =
     (let n = (of_char c :: nat) in
      if 48 \<le> n \<and> n \<le> 57 then Some (n - 48)
      else if 65 \<le> n \<and> n \<le> 70 then Some (n - 55)
      else if 97 \<le> n \<and> n \<le> 102 then Some (n - 87)
      else None)"

fun hexacc :: "int \<Rightarrow> string \<Rightarrow> int option" where
  "hexacc a [] = Some a"
| "hexacc a (c # cs) =
     (case hexdigit c of None \<Rightarrow> None | Some d \<Rightarrow> hexacc (16 * a + int d) cs)"

definition hexint :: "bytes \<Rightarrow> int option" where
  "hexint s = (if s = [] then None else hexacc 0 s)"

text \<open>A realtime frame and a capacity frame as the battery sends them.\<close>

definition frame_rt :: bytes where
  "frame_rt = '':008231005E00000000000000'' @ ''0CE40CE40CE40CE4''
     @ ''000000000000000000000000000000000000000000000000''
     @ ''000001F4'' @ ''3C3C3C3C'' @ ''F00000000000010002'' @ ''50'' @ ''AB~''"

definition frame_cap :: bytes where
  "frame_cap = '':008231000E0000'' @ ''03E8'' @ ''04B0'' @ ''04B0'' @ ''AB~''"


section \<open>The snapshot query and the reset\<close>

subsection \<open>getData\<close>

text \<open>
  The values of the dictionary \<^verbatim>\<open>getData\<close> returns. The dictionary is an association
  list in insertion order; \<open>AList.update\<close> replaces the value of a key that is present
  and appends a new key, as \<^verbatim>\<open>d |= {k: v}\<close> does.
\<close>

datatype pyval = PyNone | PyInt int | PyFloat rat | PyList "pyval list"

type_synonym dict = "(string \<times> pyval) list"

definition float_val :: "rat option \<Rightarrow> pyval" where
  "float_val x = (case x of None \<Rightarrow> PyNone | Some v \<Rightarrow> PyFloat v)"

definition int_val :: "int option \<Rightarrow> pyval" where
  "int_val x = (case x of None \<Rightarrow> PyNone | Some v \<Rightarrow> PyInt v)"

text \<open>
  The names of \<^verbatim>\<open>const.py\<close>, which the plugin imports and which are not part of the
  sources at hand: they are a parameter of \<open>getData\<close>.
\<close>

record keys =
  ATTR_VOLTAGE :: string
  ATTR_DELTA_VOLTAGE :: string
  ATTR_CURRENT :: string
  ATTR_BATTERY_LEVEL :: string
  ATTR_CYCLE_CAP :: string
  KEY_CELL_COUNT :: string
  ATTR_TEMPERATURE :: string
  KEY_CELL_VOLTAGE :: string
  ATTR_CELL_VOLTAGES :: string

text \<open>\<^verbatim>\<open>k.startswith(p)\<close>.\<close>

definition startswith :: "string \<Rightarrow> string \<Rightarrow> bool" where
  "startswith k p \<longleftrightarrow> take (length p) k = p"

text \<open>\<^verbatim>\<open>str(n)\<close> for a natural number, as the f-string of line 279 formats \<^verbatim>\<open>i+1\<close>.\<close>

fun str :: "nat \<Rightarrow> string" where
  "str n = (if n < 10 then [char_of (48 + n)] else str (n div 10) @ [char_of (48 + n mod 10)])"

declare str.simps [simp del]

text \<open>\<^verbatim>\<open>not self.totalV\<close> holds for \<^verbatim>\<open>None\<close> and for a zero.\<close>

definition truthy :: "rat option \<Rightarrow> bool" where
  "truthy x = (case x of None \<Rightarrow> False | Some v \<Rightarrow> v \<noteq> 0)"

text \<open>Lines 278-279: \<^verbatim>\<open>self.cellV[i]\<close> raises when the list is too short.\<close>

fun add_cells :: "keys \<Rightarrow> SupervoltData \<Rightarrow> nat list \<Rightarrow> dict \<Rightarrow> exn + dict" where
  "add_cells K r [] d = Inr d"
| "add_cells K r (i # is) d =
     (if i < length (cellV r)
      then add_cells K r is
             (AList.update (KEY_CELL_VOLTAGE K @ str (i + 1)) (float_val (cellV r ! i)) d)
      else Inl IndexError)"

definition literal :: "(string \<times> pyval) list \<Rightarrow> dict" where
  "literal kvs = foldl (\<lambda>d (k, v). AList.update k v d) [] kvs"

definition getData :: "keys \<Rightarrow> rat \<Rightarrow> SupervoltData \<Rightarrow> exn + dict option" where
  "getData K now r =
     (if now - lastUpdatetime r > 120 \<or> \<not> truthy (totalV r) then Inr None
      else
        let data = literal
              [ (ATTR_VOLTAGE K, float_val (totalV r)),
                (ATTR_DELTA_VOLTAGE K, float_val (totalV r)),
                (ATTR_CURRENT K, float_val (loadA r)),
                (ATTR_BATTERY_LEVEL K, int_val (soc r)),
                (ATTR_CYCLE_CAP K, float_val (remainingAh r)),
                (KEY_CELL_COUNT K, PyInt 4) ];
            data = (case tempC r of [] \<Rightarrow> data
                    | t # _ \<Rightarrow> AList.update (ATTR_TEMPERATURE K) (int_val t) data)
        in case add_cells K r [0..<4] data of
             Inl e \<Rightarrow> Inl e
           | Inr data \<Rightarrow>
               Inr (Some (AList.update (ATTR_CELL_VOLTAGES K)
                      (PyList (map snd (filter (\<lambda>(k, v). startswith k (KEY_CELL_VOLTAGE K)) data)))
                      data)))"

subsection \<open>resetValues\<close>

text \<open>Lines 293-295 and 305-307: the loops that clear the two lists.\<close>

definition clear_cell :: "nat \<Rightarrow> stmt" where
  "clear_cell i r =
     (if i < length (cellV r) then (None, r\<lparr>cellV := (cellV r)[i := None]\<rparr>)
      else (Some IndexError, r))"

definition clear_temp :: "nat \<Rightarrow> stmt" where
  "clear_temp i r =
     (if i < length (tempC r) then (None, r\<lparr>tempC := (tempC r)[i := None]\<rparr>)
      else (Some IndexError, r))"

definition reset_body :: "stmt list" where
  "reset_body =
     [ assign (\<lambda>r. r\<lparr>alarm := None\<rparr>),
       assign (\<lambda>r. r\<lparr>balanceState := None\<rparr>),
       (\<lambda>r. if cellV r \<noteq> [] then block (map clear_cell [0..<11]) r else (None, r)),
       assign (\<lambda>r. r\<lparr>chargeNumber := None\<rparr>),
       assign (\<lambda>r. r\<lparr>chargingA := None\<rparr>),
       assign (\<lambda>r. r\<lparr>completeAh := None\<rparr>),
       assign (\<lambda>r. r\<lparr>designedAh := None\<rparr>),
       assign (\<lambda>r. r\<lparr>dischargeNumber := None\<rparr>),
       assign (\<lambda>r. r\<lparr>dischargingA := None\<rparr>),
       assign (\<lambda>r. r\<lparr>loadA := None\<rparr>),
       assign (\<lambda>r. r\<lparr>remainingAh := None\<rparr>),
       assign (\<lambda>r. r\<lparr>soc := None\<rparr>),
       (\<lambda>r. if tempC r \<noteq> [] then block (map clear_temp [0..<4]) r else (None, r)),
       assign (\<lambda>r. r\<lparr>totalV := None\<rparr>),
       assign (\<lambda>r. r\<lparr>version := None\<rparr>),
       assign (\<lambda>r. r\<lparr>workingState := None\<rparr>) ]"

text \<open>\<^verbatim>\<open>resetValues\<close>: as in \<^verbatim>\<open>parse\<close>, the bare \<^verbatim>\<open>except\<close> swallows what is raised.\<close>

definition resetValues :: "SupervoltData \<Rightarrow> SupervoltData" where
  "resetValues r = snd (block reset_body r)"

text \<open>Key names for evaluation; any names that satisfy \<open>keys_ok\<close> serve.\<close>

definition keys_ok :: "keys \<Rightarrow> bool" where
  "keys_ok K \<longleftrightarrow>
     distinct [ATTR_VOLTAGE K, ATTR_DELTA_VOLTAGE K, ATTR_CURRENT K, ATTR_BATTERY_LEVEL K,
               ATTR_CYCLE_CAP K, KEY_CELL_COUNT K, ATTR_TEMPERATURE K, ATTR_CELL_VOLTAGES K]
     \<and> \<not> startswith (ATTR_VOLTAGE K) (KEY_CELL_VOLTAGE K)
     \<and> \<not> startswith (ATTR_DELTA_VOLTAGE K) (KEY_CELL_VOLTAGE K)
     \<and> \<not> startswith (ATTR_CURRENT K) (KEY_CELL_VOLTAGE K)
     \<and> \<not> startswith (ATTR_BATTERY_LEVEL K) (KEY_CELL_VOLTAGE K)
     \<and> \<not> startswith (ATTR_CYCLE_CAP K) (KEY_CELL_VOLTAGE K)
     \<and> \<not> startswith (KEY_CELL_COUNT K) (KEY_CELL_VOLTAGE K)
     \<and> \<not> startswith (ATTR_TEMPERATURE K) (KEY_CELL_VOLTAGE K)
     \<and> \<not> startswith (ATTR_CELL_VOLTAGES K) (KEY_CELL_VOLTAGE K)"

definition sample_keys :: keys where
  "sample_keys =
     \<lparr> ATTR_VOLTAGE = ''voltage'', ATTR_DELTA_VOLTAGE = ''delta_voltage'',
       ATTR_CURRENT = ''current'', ATTR_BATTERY_LEVEL = ''battery_level'',
       ATTR_CYCLE_CAP = ''cycle_capacity'', KEY_CELL_COUNT = ''cell_count'',
       ATTR_TEMPERATURE = ''temperature'', KEY_CELL_VOLTAGE = ''cell#'',
       ATTR_CELL_VOLTAGES = ''cell_voltages'' \<rparr>"


section \<open>The driver\<close>

subsection \<open>Objects and the class attribute\<close>

text \<open>
  Drivers hold their \<^verbatim>\<open>SupervoltData\<close> by reference, so the objects live in a store:
  a reference is an index into \<open>objs\<close>. \<open>supervoltDatas\<close> is the dictionary of the class
  \<^verbatim>\<open>BMS\<close>, from device names to references; the class body creates it empty.
\<close>

record world =
  objs :: "SupervoltData list"
  supervoltDatas :: "(string \<times> nat) list"

definition world0 :: world where
  "world0 = \<lparr> objs = [], supervoltDatas = [] \<rparr>"

text \<open>
  A driver: the name of its \<^verbatim>\<open>BLEDevice\<close>; \<^verbatim>\<open>_client\<close>, which is \<^verbatim>\<open>None\<close> or a
  client with its \<^verbatim>\<open>is_connected\<close>; whether \<^verbatim>\<open>_data_event\<close> is set; the reference
  \<^verbatim>\<open>supervoltData\<close>.
\<close>

record BMS =
  dev_name :: string
  client :: "bool option"
  data_event :: bool
  supervoltData :: nat

text \<open>
  \<^verbatim>\<open>BMS.__init__\<close>, lines 378-387. The default \<^verbatim>\<open>SupervoltData()\<close> of \<^verbatim>\<open>dict.get\<close>
  is built before the lookup. \<open>t0\<close> is the class attribute \<^verbatim>\<open>lastUpdatetime\<close>.
\<close>

definition BMS_init :: "rat \<Rightarrow> world \<Rightarrow> string option \<Rightarrow> exn + (world \<times> BMS)" where
  "BMS_init t0 w name =
     (case name of
        None \<Rightarrow> Inl AssertionError
      | Some n \<Rightarrow>
          let fresh = length (objs w);
              w' = w\<lparr>objs := objs w @ [new_SupervoltData t0]\<rparr>
          in Inr (w', \<lparr> dev_name = n, client = None, data_event = False,
                       supervoltData = (case map_of (supervoltDatas w') n of
                                          Some a \<Rightarrow> a | None \<Rightarrow> fresh) \<rparr>))"

subsection \<open>One poll\<close>

text \<open>
  The transport is outside the driver. A script says what it does during one poll:
  which of the awaited calls raise, which notifications (time of arrival and payload)
  reach the callback while the driver waits, and the time at which the poll reads the
  clock for the snapshot. A wait of \<^verbatim>\<open>BAT_TIMEOUT\<close> that no notification ends raises
  \<open>TimeoutError\<close>.
\<close>

datatype call = Connect | StartNotify | WriteChar bytes | StopNotify | Disconnect

record script =
  connect_raises :: "exn option"
  start_notify_raises :: "exn option"
  rx_connect :: "(rat \<times> bytes) list"
  write1_raises :: "exn option"
  rx_wait1 :: "(rat \<times> bytes) list"
  write2_raises :: "exn option"
  rx_wait2 :: "(rat \<times> bytes) list"
  stop_notify_raises :: "exn option"
  disconnect_raises :: "exn option"
  t_read :: rat

record poll_state =
  self :: BMS
  store :: "SupervoltData list"
  calls :: "call list"

definition the_data :: "poll_state \<Rightarrow> SupervoltData" where
  "the_data s = store s ! supervoltData (self s)"

definition on_data :: "(SupervoltData \<Rightarrow> SupervoltData) \<Rightarrow> poll_state \<Rightarrow> poll_state" where
  "on_data f s = s\<lparr>store := (store s)[supervoltData (self s) := f (the_data s)]\<rparr>"

definition called :: "call \<Rightarrow> poll_state \<Rightarrow> poll_state" where
  "called c s = s\<lparr>calls := calls s @ [c]\<rparr>"

definition set_event :: "bool \<Rightarrow> poll_state \<Rightarrow> poll_state" where
  "set_event b s = s\<lparr>self := (self s)\<lparr>data_event := b\<rparr>\<rparr>"

definition set_client :: "bool option \<Rightarrow> poll_state \<Rightarrow> poll_state" where
  "set_client c s = s\<lparr>self := (self s)\<lparr>client := c\<rparr>\<rparr>"

text \<open>\<^verbatim>\<open>_notification_handler\<close>, lines 416-425, and a run of notifications.\<close>

definition notification_handler ::
  "(bytes \<Rightarrow> int option) \<Rightarrow> rat \<times> bytes \<Rightarrow> poll_state \<Rightarrow> poll_state"
where
  "notification_handler hx n s =
     set_event True (on_data (\<lambda>r. parse hx (fst n) r (snd n)) s)"

definition deliver ::
  "(bytes \<Rightarrow> int option) \<Rightarrow> (rat \<times> bytes) list \<Rightarrow> poll_state \<Rightarrow> poll_state"
where
  "deliver hx rx s = foldl (\<lambda>s n. notification_handler hx n s) s rx"

text \<open>An awaited transport call: it is recorded, then raises or returns.\<close>

definition await :: "call \<Rightarrow> exn option \<Rightarrow> poll_state prog" where
  "await c raises s = (raises, called c s)"

text \<open>\<^verbatim>\<open>_connect\<close>, lines 399-414.\<close>

definition connect :: "(bytes \<Rightarrow> int option) \<Rightarrow> script \<Rightarrow> poll_state prog" where
  "connect hx sc s =
     (let s = (if client (self s) = None then set_client (Some False) s else s)
      in if client (self s) \<noteq> Some True
         then block
                [ await Connect (connect_raises sc),
                  (\<lambda>s. (None, set_client (Some True) s)),
                  await StartNotify (start_notify_raises sc),
                  (\<lambda>s. (None, deliver hx (rx_connect sc) s)) ] s
         else (None, s))"

text \<open>
  \<^verbatim>\<open>asyncio.wait_for(self._wait_event(), timeout=BAT_TIMEOUT)\<close>, lines 427-429 and 458:
  the notifications of the wait arrive; if the event is set then, the wait ends and
  clears it.
\<close>

definition wait_event ::
  "(bytes \<Rightarrow> int option) \<Rightarrow> (rat \<times> bytes) list \<Rightarrow> poll_state prog"
where
  "wait_event hx rx s =
     (let s = deliver hx rx s
      in if data_event (self s) then (None, set_event False s)
         else (Some TimeoutError, s))"

text \<open>\<^verbatim>\<open>disconnect\<close>, lines 431-441: only a \<^verbatim>\<open>BleakError\<close> is caught here.\<close>

definition catch_BleakError :: "poll_state prog \<Rightarrow> poll_state prog" where
  "catch_BleakError p s =
     (case p s of
        (Some e, s') \<Rightarrow> if e = BleakError then (None, s') else (Some e, s')
      | (None, s') \<Rightarrow> (None, s'))"

definition disconnect :: "script \<Rightarrow> poll_state prog" where
  "disconnect sc s =
     (if client (self s) = Some True
      then catch_BleakError
             (block
                [ (\<lambda>s. (None, set_event False s)),
                  await StopNotify (stop_notify_raises sc),
                  await Disconnect (disconnect_raises sc),
                  (\<lambda>s. (None, set_client (Some False) s)) ]) s
      else (None, s))"

text \<open>
  \<^verbatim>\<open>async_update\<close>, lines 447-482. The bare \<^verbatim>\<open>except\<close> of line 465 swallows what the
  exchange raises; the \<^verbatim>\<open>assert\<close> of line 469 raises when there is no snapshot.
  \<^verbatim>\<open>calc_values\<close> belongs to the base class, which is not part of the sources at hand,
  and is a parameter.
\<close>

definition exchange :: "(bytes \<Rightarrow> int option) \<Rightarrow> script \<Rightarrow> poll_state prog list" where
  "exchange hx sc =
     [ connect hx sc,
       (\<lambda>s. if client (self s) \<noteq> None
            then block
                   [ (\<lambda>s. (None, on_data resetValues s)),
                     await (WriteChar '':000250000E03~'') (write1_raises sc),
                     wait_event hx (rx_wait1 sc),
                     await (WriteChar '':001031000E05~'') (write2_raises sc),
                     wait_event hx (rx_wait2 sc),
                     disconnect sc ] s
            else (None, s)) ]"

definition async_update ::
  "(bytes \<Rightarrow> int option) \<Rightarrow> (dict \<Rightarrow> dict) \<Rightarrow> keys \<Rightarrow> script \<Rightarrow> poll_state
     \<Rightarrow> (exn + dict) \<times> poll_state"
where
  "async_update hx calc_values K sc s =
     (let s' = snd (block (exchange hx sc) s)
      in case getData K (t_read sc) (the_data s') of
           Inl e \<Rightarrow> (Inl e, s')
         | Inr None \<Rightarrow> (Inl AssertionError, s')
         | Inr (Some data) \<Rightarrow> (Inr (calc_values data), s'))"

section \<open>The capability matcher\<close>

text \<open>
  \<^verbatim>\<open>ConfigFlow._device_supported\<close>, lines 43-54 of \<^verbatim>\<open>config_flow.py\<close>. The enumeration
  \<^verbatim>\<open>BmsTypes\<close>, the driver classes and their \<^verbatim>\<open>supported\<close> come from the package
  \<^verbatim>\<open>plugins\<close>, which is not part of the sources at hand: the members in the order of
  their declaration, the name of a member, the lookup \<^verbatim>\<open>globals()[name]\<close> and the
  predicate are parameters. A name that \<^verbatim>\<open>globals()\<close> lacks raises \<open>KeyError\<close>.
\<close>

fun device_supported ::
  "('t \<Rightarrow> string) \<Rightarrow> (string \<Rightarrow> 'c option) \<Rightarrow> ('c \<Rightarrow> 'i \<Rightarrow> bool) \<Rightarrow> 't list \<Rightarrow> 'i
     \<Rightarrow> exn + 't option"
where
  "device_supported name globals supported [] info = Inr None"
| "device_supported name globals supported (t # ts) info =
     (case globals (name t) of
        None \<Rightarrow> Inl KeyError
      | Some bms \<Rightarrow>
          if supported bms info then Inr (Some t)
          else device_supported name globals supported ts info)"


section \<open>Inputs for evaluation\<close>

text \<open>A realtime frame whose currents decode to 500.00 A and 500.01 A.\<close>

definition frame_500 :: bytes where
  "frame_500 = '':008231005E00000000000000'' @ ''0CE40CE40CE40CE4''
     @ ''000000000000000000000000000000000000000000000000''
     @ ''C350C351'' @ ''3C3C3C3C'' @ ''F00000000000010002'' @ ''50'' @ ''AB~''"

text \<open>
  A registry of three driver types; a class is given by its \<^verbatim>\<open>supported\<close>, a predicate
  on the advertised name.
\<close>

definition sample_types :: "string list" where
  "sample_types = [''OGTBms'', ''SupervoltBMS'', ''AnyBMS'']"

definition sample_globals :: "string \<Rightarrow> (string \<Rightarrow> bool) option" where
  "sample_globals =
     map_of [ (''OGTBms'', \<lambda>n. startswith n ''SmartBat''),
              (''SupervoltBMS'', \<lambda>n. startswith n ''libatt''),
              (''AnyBMS'', \<lambda>n. True) ]"

text \<open>The realtime frame with an address that is no hexadecimal text.\<close>

definition frame_bad_address :: bytes where
  "frame_bad_address = '':ZZ8231005E00000000000000'' @ ''0CE40CE40CE40CE4''
     @ ''000000000000000000000000000000000000000000000000''
     @ ''000001F4'' @ ''3C3C3C3C'' @ ''F00000000000010002'' @ ''50'' @ ''AB~''"

text \<open>The realtime frame with a third cell that is no hexadecimal text.\<close>

definition frame_bad_cell :: bytes where
  "frame_bad_cell = '':008231005E00000000000000'' @ ''0CE40CE4ZZZZ0CE4''
     @ ''000000000000000000000000000000000000000000000000''
     @ ''000001F4'' @ ''3C3C3C3C'' @ ''F00000000000010002'' @ ''50'' @ ''AB~''"

text \<open>A realtime frame of 128 zero digits: every field decodes to 0.\<close>

definition frame_zero :: bytes where
  "frame_zero = replicate 128 (CHR ''0'')"

text \<open>
  A new driver for the device \<^verbatim>\<open>libatt1\<close> in the world the class bodies leave, and a
  transport that connects, accepts every write and delivers no notification.
\<close>

definition driver0 :: poll_state where
  "driver0 =
     \<lparr> self = \<lparr> dev_name = ''libatt1'', client = None, data_event = False,
                  supervoltData = 0 \<rparr>,
       store = [new_SupervoltData 0], calls = [] \<rparr>"

definition silent :: script where
  "silent =
     \<lparr> connect_raises = None, start_notify_raises = None, rx_connect = [],
       write1_raises = None, rx_wait1 = [], write2_raises = None, rx_wait2 = [],
       stop_notify_raises = None, disconnect_raises = None, t_read = 1010 \<rparr>"

text \<open>
  A driver that is still connected, with the event set by a notification that came
  after the last wait, and with the readings of a realtime frame in its record.
\<close>

definition driver1 :: poll_state where
  "driver1 =
     \<lparr> self = \<lparr> dev_name = ''libatt1'', client = Some True, data_event = True,
                  supervoltData = 0 \<rparr>,
       store = [parse hexint 1000 (new_SupervoltData 0) frame_rt], calls = [] \<rparr>"

text \<open>
  The world after a first driver for \<^verbatim>\<open>libatt1\<close> was built in \<open>world0\<close> and its
  callback received the realtime frame at time 1000.
\<close>

definition world1 :: world where
  "world1 =
     (case BMS_init 0 world0 (Some ''libatt1'') of
        Inl e \<Rightarrow> world0
      | Inr (w, b) \<Rightarrow>
          w\<lparr>objs := store (notification_handler hexint (1000, frame_rt)
                            \<lparr> self = b, store = objs w, calls = [] \<rparr>)\<rparr>)"

section \<open>Readings of the claims\<close>

text \<open>
  The cell voltages a realtime frame yields: the decoder reads the slots 0 to 10 in
  order and stops at the first one that is no hexadecimal text.
\<close>

fun leading :: "'a option list \<Rightarrow> 'a list" where
  "leading [] = []"
| "leading (None # xs) = []"
| "leading (Some v # xs) = v # leading xs"

definition parsed_cells :: "(bytes \<Rightarrow> int option) \<Rightarrow> bytes \<Rightarrow> rat list" where
  "parsed_cells hx data =
     map (\<lambda>v. of_int v / 1000) (leading (map (\<lambda>i. hx (cell_slot data i)) [0..<11]))"

text \<open>
  The sum as the specification words it: over the 11 slots, a slot that is no
  hexadecimal text contributing nothing.
\<close>

definition claimed_totalV :: "(bytes \<Rightarrow> int option) \<Rightarrow> bytes \<Rightarrow> rat" where
  "claimed_totalV hx data =
     sum_list (map (\<lambda>i. case hx (cell_slot data i) of None \<Rightarrow> 0
                                | Some v \<Rightarrow> of_int v / 1000) [0..<11])"

text \<open>
  The byte regions the decoder reads as hexadecimal text, in the order it reads them,
  for the realtime and for the capacity frame.
\<close>

definition rt_fields :: "(nat \<times> nat) list" where
  "rt_fields =
     [(1, 3), (3, 5), (5, 7), (7, 11)]
     @ map (\<lambda>i. (25 + i * 4, 25 + i * 4 + 4)) [0..<11]
     @ [(89, 93), (93, 97)]
     @ map (\<lambda>i. (97 + i * 2, 97 + i * 2 + 2)) [0..<4]
     @ [(105, 109), (109, 111), (111, 115), (115, 119), (119, 123), (123, 125)]"

definition cap_fields :: "(nat \<times> nat) list" where
  "cap_fields = [(1, 3), (3, 5), (5, 7), (7, 11), (15, 19), (19, 23), (23, 27)]"

text \<open>
  The statements of a frame before the time stamp, one after the other: for a record
  with cells, the loop over the cells is its eleven bodies in a row.
\<close>

definition realtime_flat :: "(bytes \<Rightarrow> int option) \<Rightarrow> bytes \<Rightarrow> stmt list" where
  "realtime_flat hx data =
     header hx data @ [assign (\<lambda>r. r\<lparr>totalV := Some 0\<rparr>)]
       @ concat (map (\<lambda>i. [cell_store hx data i, cell_add i]) [0..<11])
       @ currents hx data @ map (temp_stmt hx data) [0..<4] @ status hx data"

definition frame_stmts :: "(bytes \<Rightarrow> int option) \<Rightarrow> bytes \<Rightarrow> stmt list" where
  "frame_stmts hx data =
     (if length data = 128 then realtime_flat hx data else capacity_fields hx data)"

text \<open>The calls that write a command to the device.\<close>

fun is_write :: "call \<Rightarrow> bool" where
  "is_write (WriteChar c) = True"
| "is_write c = False"

text \<open>
  A best-effort decode, written from the field list of the specification (section 4.1)
  and not from the statements of \<open>parse\<close>: a frame is a table of byte regions, each with
  what storing its number means; the regions are read in order, a region that is
  hexadecimal text is stored, and the first region that is not ends the decode and
  leaves the record as the fields before it made it. The result says whether every
  region was read.
\<close>

type_synonym entry = "(nat \<times> nat) \<times> (int \<Rightarrow> SupervoltData \<Rightarrow> SupervoltData)"

fun best_effort ::
  "(bytes \<Rightarrow> int option) \<Rightarrow> bytes \<Rightarrow> entry list \<Rightarrow> SupervoltData \<Rightarrow> bool \<times> SupervoltData"
where
  "best_effort hx data [] r = (True, r)"
| "best_effort hx data (((a, b), put) # es) r =
     (case hx (slice data a b) of
        None \<Rightarrow> (False, r)
      | Some v \<Rightarrow> best_effort hx data es (put v r))"

text \<open>The plausibility ceiling of the currents: a value above 500 A counts as 0.\<close>

definition plausible :: "rat \<Rightarrow> rat" where
  "plausible x = (if x > 500 then 0 else x)"

text \<open>
  The fields of the realtime frame: address, command, version and length (with the
  length the sum of the cell voltages starts at 0), eleven cell voltages in thousandths
  of a volt, each added to the sum, the charging and the discharging current in
  hundredths of an ampere and with them the pack current, four temperatures offset by
  40, working state, alarm, balance state, discharge count, charge count and state of
  charge.
\<close>

definition header_entries :: "entry list" where
  "header_entries =
     [ ((1, 3), \<lambda>v r. r\<lparr>address := Some v\<rparr>),
       ((3, 5), \<lambda>v r. r\<lparr>command := Some v\<rparr>),
       ((5, 7), \<lambda>v r. r\<lparr>version := Some v\<rparr>) ]"

definition cell_entry :: "nat \<Rightarrow> entry" where
  "cell_entry i =
     ((25 + i * 4, 25 + i * 4 + 4),
      \<lambda>v r. r\<lparr>cellV := (cellV r)[i := Some (of_int v / 1000)],
               totalV := map_option (\<lambda>t. t + of_int v / 1000) (totalV r)\<rparr>)"

definition current_entries :: "entry list" where
  "current_entries =
     [ ((89, 93), \<lambda>v r. r\<lparr>chargingA := Some (plausible (of_int v / 100))\<rparr>),
       ((93, 97), \<lambda>v r. r\<lparr>dischargingA := Some (plausible (of_int v / 100)),
                           loadA := map_option (\<lambda>c. - c + plausible (of_int v / 100))
                                      (chargingA r)\<rparr>) ]"

definition temp_entry :: "nat \<Rightarrow> entry" where
  "temp_entry i =
     ((97 + i * 2, 97 + i * 2 + 2), \<lambda>v r. r\<lparr>tempC := (tempC r)[i := Some (v - 40)]\<rparr>)"

definition status_entries :: "entry list" where
  "status_entries =
     [ ((105, 109), \<lambda>v r. r\<lparr>workingState := Some v\<rparr>),
       ((109, 111), \<lambda>v r. r\<lparr>alarm := Some v\<rparr>),
       ((111, 115), \<lambda>v r. r\<lparr>balanceState := Some v\<rparr>),
       ((115, 119), \<lambda>v r. r\<lparr>dischargeNumber := Some v\<rparr>),
       ((119, 123), \<lambda>v r. r\<lparr>chargeNumber := Some v\<rparr>),
       ((123, 125), \<lambda>v r. r\<lparr>soc := Some v\<rparr>) ]"

definition realtime_table :: "entry list" where
  "realtime_table =
     header_entries
     @ [ ((7, 11), \<lambda>v r. r\<lparr>length_field := Some v, totalV := Some 0\<rparr>) ]
     @ map cell_entry [0..<11] @ current_entries @ map temp_entry [0..<4]
     @ status_entries"

text \<open>
  The fields of the capacity frame: address, command, version, length, and the
  remaining, the total and the designed capacity in tenths of an ampere hour.
\<close>

definition capacity_table :: "entry list" where
  "capacity_table =
     header_entries
     @ [ ((7, 11), \<lambda>v r. r\<lparr>length_field := Some v\<rparr>),
         ((15, 19), \<lambda>v r. r\<lparr>remainingAh := Some (of_int v / 10)\<rparr>),
         ((19, 23), \<lambda>v r. r\<lparr>completeAh := Some (of_int v / 10)\<rparr>),
         ((23, 27), \<lambda>v r. r\<lparr>designedAh := Some (of_int v / 10)\<rparr>) ]"

definition frame_table :: "bytes \<Rightarrow> entry list" where
  "frame_table data = (if length data = 128 then realtime_table else capacity_table)"

text \<open>What a block leaves, read as the result of a decode.\<close>

definition outcome :: "exn option \<times> SupervoltData \<Rightarrow> bool \<times> SupervoltData" where
  "outcome x = (fst x = None, snd x)"

text \<open>A capacity frame whose total capacity is no hexadecimal text.\<close>

definition frame_cap_bad :: bytes where
  "frame_cap_bad = '':008231000E0000'' @ ''03E8'' @ ''ZZZZ'' @ ''04B0'' @ ''AB~''"

section \<open>Blocks\<close>

lemma block_append:
  "block (xs @ ys) r =
     (case block xs r of (None, r') \<Rightarrow> block ys r' | (Some e, r') \<Rightarrow> (Some e, r'))"
  by (induction xs arbitrary: r) (auto split: prod.splits option.splits)

lemma block_Cons_success:
  "block (s # ss) r = (None, r') \<longleftrightarrow> (\<exists>r1. s r = (None, r1) \<and> block ss r1 = (None, r'))"
  by (auto split: prod.splits option.splits)

lemma block_success_append:
  "block (xs @ ys) r = (None, r') \<longleftrightarrow>
     (\<exists>r1. block xs r = (None, r1) \<and> block ys r1 = (None, r'))"
  by (auto simp: block_append split: prod.splits option.splits)

text \<open>What every statement of a block keeps, the block keeps, whether it raises or not.\<close>

lemma block_invariant:
  assumes step: "\<And>s r e r'. s \<in> set ss \<Longrightarrow> P r \<Longrightarrow> s r = (e, r') \<Longrightarrow> P r'"
    and "P r" and "block ss r = (e, r')"
  shows "P r'"
  using assms
proof (induction ss arbitrary: r)
  case Nil
  then show ?case by simp
next
  case (Cons s ss)
  obtain e1 r1 where s: "s r = (e1, r1)" by (cases "s r")
  have P1: "P r1" using Cons.prems(1)[of s r e1 r1] Cons.prems(2) s by simp
  show ?case
  proof (cases e1)
    case None
    then have "block ss r1 = (e, r')" using Cons.prems(3) s by simp
    then show ?thesis using Cons.IH[of r1] Cons.prems(1) P1 by auto
  next
    case (Some x)
    then show ?thesis using Cons.prems(3) s P1 by simp
  qed
qed

lemma hex_assign_success:
  "hex_assign hx data s e upd r = (None, r') \<longleftrightarrow>
     (\<exists>v. hx (slice data s e) = Some v \<and> r' = upd v r)"
  by (auto simp: hex_assign_def split: option.splits)

section \<open>Frames of another length\<close>

text \<open>
  C4. A buffer whose length is neither 128 nor 30 (the empty buffer included) leaves the
  record as it was: no field changes, \<open>lastUpdatetime\<close> among them.
\<close>

theorem parse_ignores_other_lengths:
  "length data \<noteq> 128 \<Longrightarrow> length data \<noteq> 30 \<Longrightarrow> parse hx now r data = r"
  by (simp add: parse_def parse_body_def)

theorem parse_ignores_other_lengths_witness:
  "length '':0082~'' \<noteq> 128 \<and> length '':0082~'' \<noteq> 30
   \<and> parse hexint 2000 (parse hexint 1000 (new_SupervoltData 0) frame_rt) '':0082~''
       = parse hexint 1000 (new_SupervoltData 0) frame_rt"
proof -
  have a: "length '':0082~'' \<noteq> 128" and b: "length '':0082~'' \<noteq> 30" by simp_all
  show ?thesis
    using a b parse_ignores_other_lengths [OF a b, of hexint 2000
        "parse hexint 1000 (new_SupervoltData 0) frame_rt"]
    by simp
qed

section \<open>The currents of a realtime frame\<close>

lemma clamp_charging_success:
  "clamp_charging r = (None, r') \<longleftrightarrow>
     (\<exists>c. chargingA r = Some c \<and> r' = (if c > 500 then r\<lparr>chargingA := Some 0\<rparr> else r))"
  by (auto simp: clamp_charging_def split: option.splits)

lemma clamp_discharging_success:
  "clamp_discharging r = (None, r') \<longleftrightarrow>
     (\<exists>d. dischargingA r = Some d \<and> r' = (if d > 500 then r\<lparr>dischargingA := Some 0\<rparr> else r))"
  by (auto simp: clamp_discharging_def split: option.splits)

lemma set_loadA_success:
  "set_loadA r = (None, r') \<longleftrightarrow>
     (\<exists>c d. chargingA r = Some c \<and> dischargingA r = Some d
            \<and> r' = r\<lparr>loadA := Some (- c + d)\<rparr>)"
  by (auto simp: set_loadA_def split: option.splits)

lemma currents_success:
  assumes "block (currents hx data) r = (None, r')"
  shows "\<exists>c d. hx (slice data 89 93) = Some c \<and> hx (slice data 93 97) = Some d
    \<and> chargingA r' = Some (if (of_int c / 100 :: rat) > 500 then 0 else of_int c / 100)
    \<and> dischargingA r' = Some (if (of_int d / 100 :: rat) > 500 then 0 else of_int d / 100)
    \<and> loadA r' = Some (- (if (of_int c / 100 :: rat) > 500 then 0 else of_int c / 100)
                        + (if (of_int d / 100 :: rat) > 500 then 0 else of_int d / 100))"
proof -
  from assms obtain c r1 r2 d r3 r4 where
    c: "hx (slice data 89 93) = Some c"
    and r1: "r1 = r\<lparr>chargingA := Some (of_int c / 100)\<rparr>"
    and r2: "clamp_charging r1 = (None, r2)"
    and d: "hx (slice data 93 97) = Some d"
    and r3: "r3 = r2\<lparr>dischargingA := Some (of_int d / 100)\<rparr>"
    and r4: "clamp_discharging r3 = (None, r4)"
    and r5: "set_loadA r4 = (None, r')"
    unfolding currents_def block_Cons_success hex_assign_success by auto
  have c2: "chargingA r2 = Some (if (of_int c / 100 :: rat) > 500 then 0 else of_int c / 100)"
    using r2 r1 by (auto simp: clamp_charging_success)
  have c4: "chargingA r4 = chargingA r2"
    using r4 r3 by (auto simp: clamp_discharging_success split: if_splits)
  have d4: "dischargingA r4 = Some (if (of_int d / 100 :: rat) > 500 then 0 else of_int d / 100)"
    using r4 r3 by (auto simp: clamp_discharging_success)
  show ?thesis using c d c2 c4 d4 r5 by (auto simp: set_loadA_success)
qed

lemma rest_keeps_currents:
  assumes "s \<in> set (map (temp_stmt hx data) [0..<4] @ status hx data @ [stamp now])"
    and "s r = (e, r')"
  shows "chargingA r' = chargingA r \<and> dischargingA r' = dischargingA r \<and> loadA r' = loadA r"
  using assms
  by (auto simp: status_def stamp_def temp_stmt_def hex_assign_def assign_def
      split: option.splits if_splits)

lemma realtime_currents:
  assumes "block (realtime hx now data) r = (None, r')"
  shows "\<exists>c d. hx (slice data 89 93) = Some c \<and> hx (slice data 93 97) = Some d
    \<and> chargingA r' = Some (if (of_int c / 100 :: rat) > 500 then 0 else of_int c / 100)
    \<and> dischargingA r' = Some (if (of_int d / 100 :: rat) > 500 then 0 else of_int d / 100)
    \<and> loadA r' = Some (- (if (of_int c / 100 :: rat) > 500 then 0 else of_int c / 100)
                        + (if (of_int d / 100 :: rat) > 500 then 0 else of_int d / 100))"
proof -
  have "block ((header hx data @ cells hx data) @ currents hx data
          @ (map (temp_stmt hx data) [0..<4] @ status hx data @ [stamp now])) r = (None, r')"
    using assms by (simp add: realtime_def realtime_fields_def)
  then obtain r1 r2 where c: "block (currents hx data) r1 = (None, r2)"
    and rest: "block (map (temp_stmt hx data) [0..<4] @ status hx data @ [stamp now]) r2
                 = (None, r')"
    unfolding block_success_append by blast
  let ?P = "\<lambda>x. chargingA x = chargingA r2 \<and> dischargingA x = dischargingA r2
                 \<and> loadA x = loadA r2"
  have "?P r'"
  proof (rule block_invariant[where P = ?P, OF _ _ rest])
    show "?P r2" by simp
  next
    fix s x e x'
    assume "s \<in> set (map (temp_stmt hx data) [0..<4] @ status hx data @ [stamp now])"
      and "?P x" and "s x = (e, x')"
    then show "?P x'" using rest_keeps_currents[of s hx data now x e x'] by simp
  qed
  then show ?thesis using currents_success[OF c] by simp
qed

lemma parse_realtime_success:
  assumes "length data = 128" and "fst (parse_body hx now data r) = None"
  shows "block (realtime hx now data) r = (None, parse hx now r data)"
proof -
  have "data \<noteq> []" using assms(1) by auto
  then show ?thesis using assms by (simp add: parse_def parse_body_def prod_eq_iff)
qed

text \<open>
  C5. When a 128-byte frame is decoded to its end, the stored charging and discharging
  currents are the decoded fields divided by 100, each replaced by 0 when it is above
  500, and the stored pack current is minus the stored charging current plus the stored
  discharging current.
\<close>

theorem realtime_currents_stored:
  assumes "length data = 128" and "fst (parse_body hx now data r) = None"
  shows "\<exists>c d. hx (slice data 89 93) = Some c \<and> hx (slice data 93 97) = Some d
    \<and> chargingA (parse hx now r data)
        = Some (if (of_int c / 100 :: rat) > 500 then 0 else of_int c / 100)
    \<and> dischargingA (parse hx now r data)
        = Some (if (of_int d / 100 :: rat) > 500 then 0 else of_int d / 100)
    \<and> loadA (parse hx now r data)
        = Some (- the (chargingA (parse hx now r data))
                + the (dischargingA (parse hx now r data)))"
proof -
  from realtime_currents[OF parse_realtime_success[OF assms]]
  obtain c d where "hx (slice data 89 93) = Some c" "hx (slice data 93 97) = Some d"
    "chargingA (parse hx now r data)
       = Some (if (of_int c / 100 :: rat) > 500 then 0 else of_int c / 100)"
    "dischargingA (parse hx now r data)
       = Some (if (of_int d / 100 :: rat) > 500 then 0 else of_int d / 100)"
    "loadA (parse hx now r data)
       = Some (- (if (of_int c / 100 :: rat) > 500 then 0 else of_int c / 100)
               + (if (of_int d / 100 :: rat) > 500 then 0 else of_int d / 100))"
    by blast
  then show ?thesis by (intro exI[of _ c] exI[of _ d]) simp
qed

theorem realtime_currents_stored_witness:
  "length frame_500 = 128
   \<and> fst (parse_body hexint 1000 frame_500 (new_SupervoltData 0)) = None
   \<and> chargingA (parse hexint 1000 (new_SupervoltData 0) frame_500) = Some 500
   \<and> dischargingA (parse hexint 1000 (new_SupervoltData 0) frame_500) = Some 0
   \<and> loadA (parse hexint 1000 (new_SupervoltData 0) frame_500) = Some (- 500)"
proof -
  have a: "length frame_500 = 128" by (simp add: frame_500_def)
  have b: "fst (parse_body hexint 1000 frame_500 (new_SupervoltData 0)) = None"
    by code_simp
  have c: "hexint (slice frame_500 89 93) = Some 50000" by code_simp
  have d: "hexint (slice frame_500 93 97) = Some 50001" by code_simp
  show ?thesis
    using a b c d realtime_currents_stored [OF a b] by auto
qed

text \<open>
  C10. The comparison with 500 is strict. When a 128-byte frame is decoded to its end, a
  current field that decodes to 50000, that is 500.00 A, is stored as 500; a field is
  replaced by 0 exactly when it decodes to more than 50000.
\<close>

theorem clamp_is_strict:
  assumes "length data = 128" and "fst (parse_body hx now data r) = None"
  shows "(hx (slice data 89 93) = Some 50000
            \<longrightarrow> chargingA (parse hx now r data) = Some 500)
       \<and> (hx (slice data 93 97) = Some 50000
            \<longrightarrow> dischargingA (parse hx now r data) = Some 500)
       \<and> (\<forall>c. hx (slice data 89 93) = Some c \<longrightarrow>
            chargingA (parse hx now r data)
              = Some (if 50000 < c then 0 else of_int c / 100))
       \<and> (\<forall>d. hx (slice data 93 97) = Some d \<longrightarrow>
            dischargingA (parse hx now r data)
              = Some (if 50000 < d then 0 else of_int d / 100))"
proof -
  have cmp: "\<And>v::int. ((of_int v / 100 :: rat) > 500) = (50000 < v)"
  proof -
    fix v :: int
    have "((of_int v / 100 :: rat) > 500) = ((of_int v :: rat) > of_int 50000)"
      by (simp add: field_simps)
    also have "\<dots> = (50000 < v)" by (simp only: of_int_less_iff)
    finally show "((of_int v / 100 :: rat) > 500) = (50000 < v)" .
  qed
  from realtime_currents[OF parse_realtime_success[OF assms]]
  obtain c d where "hx (slice data 89 93) = Some c" "hx (slice data 93 97) = Some d"
    "chargingA (parse hx now r data)
       = Some (if (of_int c / 100 :: rat) > 500 then 0 else of_int c / 100)"
    "dischargingA (parse hx now r data)
       = Some (if (of_int d / 100 :: rat) > 500 then 0 else of_int d / 100)"
    by blast
  then show ?thesis by (auto simp: cmp)
qed

theorem clamp_is_strict_witness:
  "length frame_500 = 128
   \<and> fst (parse_body hexint 1000 frame_500 (new_SupervoltData 0)) = None
   \<and> hexint (slice frame_500 89 93) = Some 50000
   \<and> hexint (slice frame_500 93 97) = Some 50001
   \<and> chargingA (parse hexint 1000 (new_SupervoltData 0) frame_500) = Some 500
   \<and> dischargingA (parse hexint 1000 (new_SupervoltData 0) frame_500) = Some 0"
proof -
  have a: "length frame_500 = 128" by (simp add: frame_500_def)
  have b: "fst (parse_body hexint 1000 frame_500 (new_SupervoltData 0)) = None"
    by code_simp
  have c: "hexint (slice frame_500 89 93) = Some 50000" by code_simp
  have d: "hexint (slice frame_500 93 97) = Some 50001" by code_simp
  show ?thesis
    using a b c d clamp_is_strict [OF a b] by auto
qed

section \<open>The first matching driver type\<close>

lemma device_supported_find:
  assumes "\<forall>t \<in> set types. globals (name t) \<noteq> None"
  shows "device_supported name globals supported types info
       = Inr (find (\<lambda>t. supported (the (globals (name t))) info) types)"
  using assms by (induction types) auto

text \<open>
  C9. When every member of the enumeration names a driver class, the matcher returns
  the first member, in the order of the enumeration, whose class supports the
  advertisement, and none when no class does. So when the member at position \<open>i\<close>
  matches, the member returned stands at a position \<open>k \<le> i\<close>, matches, and no member
  before it matches: of two matching members the earlier one wins.
\<close>

theorem device_supported_first_match:
  assumes "\<forall>t \<in> set types. globals (name t) \<noteq> None"
  shows "device_supported name globals supported types info
           = Inr (find (\<lambda>t. supported (the (globals (name t))) info) types)
       \<and> ((\<forall>t \<in> set types. \<not> supported (the (globals (name t))) info)
            \<longrightarrow> device_supported name globals supported types info = Inr None)
       \<and> (\<forall>i < length types. supported (the (globals (name (types ! i)))) info \<longrightarrow>
            (\<exists>k \<le> i. device_supported name globals supported types info
                         = Inr (Some (types ! k))
                    \<and> supported (the (globals (name (types ! k)))) info
                    \<and> (\<forall>j < k. \<not> supported (the (globals (name (types ! j)))) info)))"
proof -
  let ?P = "\<lambda>t. supported (the (globals (name t))) info"
  have eq: "device_supported name globals supported types info = Inr (find ?P types)"
    by (rule device_supported_find[OF assms])
  have none: "(\<forall>t \<in> set types. \<not> ?P t) \<longrightarrow> find ?P types = None"
    by (simp add: find_None_iff)
  have first: "\<exists>k \<le> i. find ?P types = Some (types ! k) \<and> ?P (types ! k)
                 \<and> (\<forall>j < k. \<not> ?P (types ! j))"
    if i: "i < length types" and Pi: "?P (types ! i)" for i
  proof -
    have "find ?P types \<noteq> None" using nth_mem[OF i] Pi by (auto simp: find_None_iff)
    then obtain x where x: "find ?P types = Some x" by blast
    then obtain k where k: "k < length types" "?P (types ! k)" "x = types ! k"
      "\<forall>j < k. \<not> ?P (types ! j)"
      unfolding find_Some_iff by blast
    have "k \<le> i" using k(4) Pi by (meson not_le)
    then show ?thesis using x k by blast
  qed
  show ?thesis using eq none first by simp
qed

theorem device_supported_first_match_witness:
  "device_supported id sample_globals (\<lambda>c i. c i) sample_types ''libatt42''
       = Inr (Some ''SupervoltBMS'')
   \<and> device_supported id sample_globals (\<lambda>c i. c i) sample_types ''libatt42''
       = Inr (find (\<lambda>t. the (sample_globals (id t)) ''libatt42'') sample_types)"
proof -
  have a: "\<forall>t \<in> set sample_types. sample_globals (id t) \<noteq> None"
    by (simp add: sample_types_def sample_globals_def)
  have b: "find (\<lambda>t. the (sample_globals (id t)) ''libatt42'') sample_types
             = Some ''SupervoltBMS''"
    by (simp add: sample_types_def sample_globals_def startswith_def)
  show ?thesis
    using a b device_supported_first_match [where types = sample_types
        and globals = sample_globals and name = id and supported = "\<lambda>c i. c i"
        and info = "''libatt42''"]
    by simp
qed

section \<open>The total voltage of a realtime frame\<close>

lemma leading_append:
  "leading (xs @ ys) = (if None \<in> set xs then leading xs else leading xs @ leading ys)"
  by (induction xs rule: leading.induct) auto

lemma cell_stmt_eq:
  assumes "i < length (cellV r)" and "totalV r = Some t"
  shows "cell_stmt hx data i r =
     (case hx (cell_slot data i) of
        None \<Rightarrow> (Some ValueError, r)
      | Some v \<Rightarrow> (None, r\<lparr>cellV := (cellV r)[i := Some (of_int v / 1000)],
                             totalV := Some (t + of_int v / 1000)\<rparr>))"
  using assms
  by (simp add: cell_stmt_def cell_store_def cell_add_def split: option.splits)

text \<open>
  The loop over the first \<open>n\<close> cells adds the voltages of the slots before the first
  one that fails, and raises exactly when one fails.
\<close>

lemma cells_loop:
  assumes "n \<le> length (cellV r)" and "totalV r = Some t"
    and "block (map (cell_stmt hx data) [0..<n]) r = (e, r')"
  shows "totalV r' = Some (t + sum_list (map (\<lambda>v. of_int v / 1000)
                       (leading (map (\<lambda>i. hx (cell_slot data i)) [0..<n]))))
       \<and> length (cellV r') = length (cellV r)
       \<and> (e = None \<longleftrightarrow> None \<notin> set (map (\<lambda>i. hx (cell_slot data i)) [0..<n]))"
  using assms
proof (induction n arbitrary: e r')
  case 0
  then show ?case by simp
next
  case (Suc n)
  obtain e1 r1 where pre: "block (map (cell_stmt hx data) [0..<n]) r = (e1, r1)"
    by (cases "block (map (cell_stmt hx data) [0..<n]) r")
  have n: "n \<le> length (cellV r)" using Suc.prems(1) by simp
  note IH = Suc.IH[OF n Suc.prems(2) pre]
  show ?case
  proof (cases e1)
    case (Some x)
    then have "e = e1" "r' = r1" using Suc.prems(3) pre by (simp_all add: block_append)
    then show ?thesis using IH Some by (simp add: leading_append)
  next
    case None
    then have last: "cell_stmt hx data n r1 = (e, r')"
      using Suc.prems(3) pre by (simp add: block_append split: prod.splits option.splits)
    have len: "n < length (cellV r1)" using IH Suc.prems(1) by simp
    obtain t1 where t1: "totalV r1 = Some t1" using IH by blast
    show ?thesis
      using last IH None t1 cell_stmt_eq[OF len t1, of hx data]
      by (cases "hx (cell_slot data n)") (auto simp: leading_append)
  qed
qed

lemma header_success:
  assumes "hx (slice data 1 3) = Some a" "hx (slice data 3 5) = Some c"
    "hx (slice data 5 7) = Some v" "hx (slice data 7 11) = Some l"
  shows "block (header hx data) r
       = (None, r\<lparr>address := Some a, command := Some c, version := Some v,
                    length_field := Some l\<rparr>)"
  using assms by (simp add: header_def hex_assign_def)

lemma after_cells_keeps_totalV:
  assumes "s \<in> set (currents hx data @ map (temp_stmt hx data) [0..<4] @ status hx data
                      @ [stamp now])"
    and "s r = (e, r')"
  shows "totalV r' = totalV r"
  using assms
  by (auto simp: currents_def status_def stamp_def temp_stmt_def hex_assign_def assign_def
      clamp_charging_def clamp_discharging_def set_loadA_def
      split: option.splits if_splits)

lemma realtime_totalV:
  assumes len: "length data = 128" and well_formed: "well_formed r"
    and hd: "hx (slice data 1 3) \<noteq> None" "hx (slice data 3 5) \<noteq> None"
      "hx (slice data 5 7) \<noteq> None" "hx (slice data 7 11) \<noteq> None"
  shows "totalV (parse hx now r data) = Some (sum_list (parsed_cells hx data))"
proof -
  from hd obtain a c v l where h: "hx (slice data 1 3) = Some a"
    "hx (slice data 3 5) = Some c" "hx (slice data 5 7) = Some v"
    "hx (slice data 7 11) = Some l" by auto
  define r1 where "r1 = r\<lparr>address := Some a, command := Some c, version := Some v,
                    length_field := Some l, totalV := Some 0\<rparr>"
  let ?rest = "currents hx data @ map (temp_stmt hx data) [0..<4] @ status hx data
                 @ [stamp now]"
  obtain e2 r2 where loop: "block (map (cell_stmt hx data) [0..<11]) r1 = (e2, r2)"
    by (cases "block (map (cell_stmt hx data) [0..<11]) r1")
  have ne: "cellV r1 \<noteq> []" and n: "11 \<le> length (cellV r1)" and t: "totalV r1 = Some 0"
    using well_formed by (auto simp: well_formed_def r1_def)
  have tot2: "totalV r2 = Some (sum_list (parsed_cells hx data))"
    using cells_loop[OF n t loop] by (simp add: parsed_cells_def)
  have data: "data \<noteq> []" using len by auto
  have body: "parse_body hx now data r =
      (case (e2, r2) of (None, r') \<Rightarrow> block ?rest r' | (Some e, r') \<Rightarrow> (Some e, r'))"
    using len data header_success[OF h, of r] ne loop
    by (simp add: parse_body_def realtime_def realtime_fields_def block_append cells_def
        assign_def r1_def)
  show ?thesis
  proof (cases e2)
    case (Some x)
    then show ?thesis using body tot2 by (simp add: parse_def)
  next
    case None
    obtain e3 r3 where rest: "block ?rest r2 = (e3, r3)" by (cases "block ?rest r2")
    have "totalV r3 = totalV r2"
    proof (rule block_invariant[where P = "\<lambda>x. totalV x = totalV r2", OF _ _ rest])
      show "totalV r2 = totalV r2" by simp
    next
      fix s x e x'
      assume "s \<in> set ?rest" "totalV x = totalV r2" "s x = (e, x')"
      then show "totalV x' = totalV r2"
        using after_cells_keeps_totalV[of s hx data now x e x'] by simp
    qed
    then show ?thesis using body None rest tot2 by (simp add: parse_def)
  qed
qed

text \<open>
  C6, as the claim states it, fails: a 128-byte frame whose address is no hexadecimal
  text is abandoned before \<^verbatim>\<open>self.totalV = 0\<close> runs, so after decoding it into a new
  record \<open>totalV\<close> is still \<^verbatim>\<open>None\<close>, where the sum the claim speaks of is 13.2 (four
  cells of 3.3 V and seven of 0 V are hexadecimal text).
\<close>

theorem totalV_unset_after_bad_address:
  "length frame_bad_address = 128
   \<and> totalV (parse hexint 1000 (new_SupervoltData 0) frame_bad_address) = None
   \<and> claimed_totalV hexint frame_bad_address = 66 / 5
   \<and> totalV (parse hexint 1000 (new_SupervoltData 0) frame_bad_address)
       \<noteq> Some (claimed_totalV hexint frame_bad_address)"
  by code_simp

text \<open>
  C6, amended. For a 128-byte frame whose address, command, version and length are
  hexadecimal text, decoded into a record of the program, \<open>totalV\<close> is afterwards the
  sum of the cell voltages of the slots 0 to 10 up to the first slot that is no
  hexadecimal text (of all eleven when there is none), each the decoded number divided
  by 1000; that slot and the slots after it add nothing.
\<close>

theorem totalV_is_sum_of_parsed_cells:
  assumes "length data = 128" and "well_formed r"
    and "hx (slice data 1 3) \<noteq> None" and "hx (slice data 3 5) \<noteq> None"
    and "hx (slice data 5 7) \<noteq> None" and "hx (slice data 7 11) \<noteq> None"
  shows "totalV (parse hx now r data) = Some (sum_list (parsed_cells hx data))"
  using assms by (rule realtime_totalV)

theorem totalV_is_sum_of_parsed_cells_witness:
  "length frame_bad_cell = 128 \<and> well_formed (new_SupervoltData 0)
   \<and> parsed_cells hexint frame_bad_cell = [33 / 10, 33 / 10]
   \<and> totalV (parse hexint 1000 (new_SupervoltData 0) frame_bad_cell) = Some (33 / 5)"
proof -
  have a: "length frame_bad_cell = 128" by (simp add: frame_bad_cell_def)
  have b: "well_formed (new_SupervoltData 0)" by (simp add: well_formed_def new_SupervoltData_def)
  have h: "hexint (slice frame_bad_cell 1 3) \<noteq> None"
    "hexint (slice frame_bad_cell 3 5) \<noteq> None"
    "hexint (slice frame_bad_cell 5 7) \<noteq> None"
    "hexint (slice frame_bad_cell 7 11) \<noteq> None"
    by code_simp+
  have c: "parsed_cells hexint frame_bad_cell = [33 / 10, 33 / 10]" by code_simp
  show ?thesis
    using a b c totalV_is_sum_of_parsed_cells [OF a b h, of 1000] by simp
qed

section \<open>The reset\<close>

lemma replicate_drop_update:
  assumes "n < length xs"
  shows "(replicate n a @ drop n xs)[n := a] = replicate (Suc n) a @ drop (Suc n) xs"
proof -
  have "drop n xs = xs ! n # drop (Suc n) xs" using assms by (simp add: Cons_nth_drop_Suc)
  then show ?thesis by (simp add: list_update_append replicate_append_same)
qed

lemma clear_cells_loop:
  assumes "n \<le> length (cellV r)"
  shows "block (map clear_cell [0..<n]) r
       = (None, r\<lparr>cellV := replicate n None @ drop n (cellV r)\<rparr>)"
  using assms
proof (induction n)
  case 0
  then show ?case by simp
next
  case (Suc n)
  then show ?case
    by (simp add: block_append clear_cell_def replicate_drop_update del: replicate_Suc)
qed

lemma clear_temps_loop:
  assumes "n \<le> length (tempC r)"
  shows "block (map clear_temp [0..<n]) r
       = (None, r\<lparr>tempC := replicate n None @ drop n (tempC r)\<rparr>)"
  using assms
proof (induction n)
  case 0
  then show ?case by simp
next
  case (Suc n)
  then show ?case
    by (simp add: block_append clear_temp_def replicate_drop_update del: replicate_Suc)
qed

lemma resetValues_wf:
  assumes "well_formed r"
  shows "resetValues r =
     r\<lparr>alarm := None, balanceState := None, cellV := replicate 16 None,
       chargeNumber := None, chargingA := None, completeAh := None, designedAh := None,
       dischargeNumber := None, dischargingA := None, loadA := None, remainingAh := None,
       soc := None, tempC := replicate 4 None, totalV := None, version := None,
       workingState := None\<rparr>"
proof -
  have c: "cellV r \<noteq> []" "11 \<le> length (cellV r)"
    and t: "tempC r \<noteq> []" "4 \<le> length (tempC r)"
    using assms by (auto simp: well_formed_def)
  have d: "replicate 11 None @ drop 11 (cellV r) = replicate 16 None"
    using assms by (simp add: well_formed_def flip: replicate_add)
  have dt: "drop 4 (tempC r) = []" using assms by (simp add: well_formed_def)
  show ?thesis
    using c t d dt clear_cells_loop[of 11] clear_temps_loop[of 4]
    by (simp add: resetValues_def reset_body_def assign_def)
qed

lemma getData_unset: "totalV r = None \<Longrightarrow> getData K now r = Inr None"
  by (simp add: getData_def truthy_def)

text \<open>
  C8, as the claim states it, fails: after a realtime frame was decoded at time 1000,
  the reset leaves the address, the command, the length and the time stamp of the
  record as they are.
\<close>

theorem reset_keeps_header_and_timestamp:
  "address (resetValues (parse hexint 1000 (new_SupervoltData 0) frame_rt)) = Some 0
   \<and> command (resetValues (parse hexint 1000 (new_SupervoltData 0) frame_rt)) = Some 130
   \<and> length_field (resetValues (parse hexint 1000 (new_SupervoltData 0) frame_rt)) = Some 94
   \<and> lastUpdatetime (resetValues (parse hexint 1000 (new_SupervoltData 0) frame_rt)) = 1000"
  by code_simp

text \<open>
  C8, amended. For every record of the program, the reset sets the alarm, the balance
  state, every cell voltage, the charge and discharge numbers, the three currents, the
  three capacities, the state of charge, every temperature, the total voltage, the
  version and the working state to \<^verbatim>\<open>None\<close> and changes nothing else (the address, the
  command, the length and \<open>lastUpdatetime\<close> keep their values); a snapshot query made
  right afterwards returns \<^verbatim>\<open>None\<close>, at any time and for any key names.
\<close>

theorem reset_clears_measurements:
  assumes "well_formed r"
  shows "resetValues r =
     r\<lparr>alarm := None, balanceState := None, cellV := replicate 16 None,
       chargeNumber := None, chargingA := None, completeAh := None, designedAh := None,
       dischargeNumber := None, dischargingA := None, loadA := None, remainingAh := None,
       soc := None, tempC := replicate 4 None, totalV := None, version := None,
       workingState := None\<rparr>
     \<and> getData K now (resetValues r) = Inr None"
proof -
  have "totalV (resetValues r) = None" by (simp add: resetValues_wf[OF assms])
  then show ?thesis using resetValues_wf[OF assms] getData_unset by blast
qed

theorem reset_clears_measurements_witness:
  "well_formed (parse hexint 1000 (new_SupervoltData 0) frame_rt)
   \<and> totalV (parse hexint 1000 (new_SupervoltData 0) frame_rt) = Some (66 / 5)
   \<and> totalV (resetValues (parse hexint 1000 (new_SupervoltData 0) frame_rt)) = None
   \<and> getData sample_keys 1001 (resetValues (parse hexint 1000 (new_SupervoltData 0) frame_rt))
       = Inr None"
proof -
  have a: "well_formed (parse hexint 1000 (new_SupervoltData 0) frame_rt)" by code_simp
  have b: "totalV (parse hexint 1000 (new_SupervoltData 0) frame_rt) = Some (66 / 5)"
    by code_simp
  have c: "totalV (resetValues (parse hexint 1000 (new_SupervoltData 0) frame_rt)) = None"
    by code_simp
  have d: "getData sample_keys 1001
             (resetValues (parse hexint 1000 (new_SupervoltData 0) frame_rt)) = Inr None"
    using reset_clears_measurements [OF a, of sample_keys 1001] by blast
  show ?thesis
    using a b c d by blast
qed

section \<open>The snapshot\<close>

lemma upt_4: "[0..<4] = [0, 1, 2, 3]"
  by code_simp

lemma str_digits:
  "str (Suc 0) = ''1''" "str (Suc (Suc 0)) = ''2''" "str 2 = ''2''" "str 3 = ''3''"
  "str 4 = ''4''"
  by code_simp+

lemma startswith_append: "startswith (p @ s) p"
  by (simp add: startswith_def)

lemma not_startswith_neq:
  assumes "\<not> startswith k p"
  shows "k \<noteq> p @ s" and "p @ s \<noteq> k"
  using assms by (auto simp: startswith_def)

lemma getData_wf:
  assumes K: "keys_ok K" and well_formed: "well_formed r"
  shows "getData K now r =
     Inr (if now - lastUpdatetime r > 120 \<or> totalV r = None \<or> totalV r = Some 0 then None
          else Some
            [ (ATTR_VOLTAGE K, float_val (totalV r)),
              (ATTR_DELTA_VOLTAGE K, float_val (totalV r)),
              (ATTR_CURRENT K, float_val (loadA r)),
              (ATTR_BATTERY_LEVEL K, int_val (soc r)),
              (ATTR_CYCLE_CAP K, float_val (remainingAh r)),
              (KEY_CELL_COUNT K, PyInt 4),
              (ATTR_TEMPERATURE K, int_val (tempC r ! 0)),
              (KEY_CELL_VOLTAGE K @ ''1'', float_val (cellV r ! 0)),
              (KEY_CELL_VOLTAGE K @ ''2'', float_val (cellV r ! 1)),
              (KEY_CELL_VOLTAGE K @ ''3'', float_val (cellV r ! 2)),
              (KEY_CELL_VOLTAGE K @ ''4'', float_val (cellV r ! 3)),
              (ATTR_CELL_VOLTAGES K,
                 PyList [float_val (cellV r ! 0), float_val (cellV r ! 1),
                         float_val (cellV r ! 2), float_val (cellV r ! 3)]) ])"
proof -
  obtain t ts where t: "tempC r = t # ts" using well_formed by (cases "tempC r") (auto simp: well_formed_def)
  have len: "0 < length (cellV r)" "Suc 0 < length (cellV r)" "2 < length (cellV r)"
    "3 < length (cellV r)" using well_formed by (auto simp: well_formed_def)
  have truthy: "truthy (totalV r) \<longleftrightarrow> \<not> (totalV r = None \<or> totalV r = Some 0)"
    by (cases "totalV r") (auto simp: truthy_def)
  note ns = not_startswith_neq[of _ "KEY_CELL_VOLTAGE K"]
  have k: "distinct [ATTR_VOLTAGE K, ATTR_DELTA_VOLTAGE K, ATTR_CURRENT K,
               ATTR_BATTERY_LEVEL K, ATTR_CYCLE_CAP K, KEY_CELL_COUNT K,
               ATTR_TEMPERATURE K, ATTR_CELL_VOLTAGES K]"
    and p: "\<not> startswith (ATTR_VOLTAGE K) (KEY_CELL_VOLTAGE K)"
     "\<not> startswith (ATTR_DELTA_VOLTAGE K) (KEY_CELL_VOLTAGE K)"
     "\<not> startswith (ATTR_CURRENT K) (KEY_CELL_VOLTAGE K)"
     "\<not> startswith (ATTR_BATTERY_LEVEL K) (KEY_CELL_VOLTAGE K)"
     "\<not> startswith (ATTR_CYCLE_CAP K) (KEY_CELL_VOLTAGE K)"
     "\<not> startswith (KEY_CELL_COUNT K) (KEY_CELL_VOLTAGE K)"
     "\<not> startswith (ATTR_TEMPERATURE K) (KEY_CELL_VOLTAGE K)"
     "\<not> startswith (ATTR_CELL_VOLTAGES K) (KEY_CELL_VOLTAGE K)"
    using K by (simp_all add: keys_ok_def)
  show ?thesis
    using k p len
    by (simp add: getData_def truthy literal_def t upt_4 str_digits startswith_append
        ns[OF p(1)] ns[OF p(2)] ns[OF p(3)] ns[OF p(4)] ns[OF p(5)] ns[OF p(6)] ns[OF p(7)]
        ns[OF p(8)] Let_def)
qed

text \<open>
  C3, as the claim states it, fails: a realtime frame of zero digits, decoded at time
  1000, sets \<open>totalV\<close> to 0; one time unit later the record is not stale and its total
  voltage is set, and yet the snapshot query returns \<^verbatim>\<open>None\<close>, because
  \<^verbatim>\<open>not self.totalV\<close> holds for 0 too.
\<close>

theorem getData_none_for_zero_voltage:
  "totalV (parse hexint 1000 (new_SupervoltData 0) frame_zero) = Some 0
   \<and> \<not> 1001 - lastUpdatetime (parse hexint 1000 (new_SupervoltData 0) frame_zero) > 120
   \<and> getData sample_keys 1001 (parse hexint 1000 (new_SupervoltData 0) frame_zero)
       = Inr None"
  by code_simp

text \<open>
  C3, amended. For every record of the program, every time and key names that are
  distinct and of which only the cell keys start with \<open>KEY_CELL_VOLTAGE\<close>: the snapshot
  query returns \<^verbatim>\<open>None\<close> exactly when the record is older than 120 time units or its
  total voltage is unset or zero; otherwise it returns, in this order, the total
  voltage, the delta voltage (the total voltage again), the pack current, the state of
  charge, the remaining capacity, the cell count 4, the first temperature, the first
  four cell voltages and the list of these four.
\<close>

theorem getData_snapshot:
  assumes "keys_ok K" and "well_formed r"
  shows "getData K now r =
     Inr (if now - lastUpdatetime r > 120 \<or> totalV r = None \<or> totalV r = Some 0 then None
          else Some
            [ (ATTR_VOLTAGE K, float_val (totalV r)),
              (ATTR_DELTA_VOLTAGE K, float_val (totalV r)),
              (ATTR_CURRENT K, float_val (loadA r)),
              (ATTR_BATTERY_LEVEL K, int_val (soc r)),
              (ATTR_CYCLE_CAP K, float_val (remainingAh r)),
              (KEY_CELL_COUNT K, PyInt 4),
              (ATTR_TEMPERATURE K, int_val (tempC r ! 0)),
              (KEY_CELL_VOLTAGE K @ ''1'', float_val (cellV r ! 0)),
              (KEY_CELL_VOLTAGE K @ ''2'', float_val (cellV r ! 1)),
              (KEY_CELL_VOLTAGE K @ ''3'', float_val (cellV r ! 2)),
              (KEY_CELL_VOLTAGE K @ ''4'', float_val (cellV r ! 3)),
              (ATTR_CELL_VOLTAGES K,
                 PyList [float_val (cellV r ! 0), float_val (cellV r ! 1),
                         float_val (cellV r ! 2), float_val (cellV r ! 3)]) ])"
  using assms by (rule getData_wf)

theorem getData_snapshot_witness:
  "keys_ok sample_keys \<and> well_formed (parse hexint 1000 (new_SupervoltData 0) frame_rt)
   \<and> getData sample_keys 1001 (parse hexint 1000 (new_SupervoltData 0) frame_rt)
       = Inr (Some
           [ (''voltage'', PyFloat (66 / 5)), (''delta_voltage'', PyFloat (66 / 5)),
             (''current'', PyFloat 5), (''battery_level'', PyInt 80),
             (''cycle_capacity'', PyNone), (''cell_count'', PyInt 4),
             (''temperature'', PyInt 20),
             (''cell#1'', PyFloat (33 / 10)), (''cell#2'', PyFloat (33 / 10)),
             (''cell#3'', PyFloat (33 / 10)), (''cell#4'', PyFloat (33 / 10)),
             (''cell_voltages'', PyList [PyFloat (33 / 10), PyFloat (33 / 10),
                                         PyFloat (33 / 10), PyFloat (33 / 10)]) ])
   \<and> getData sample_keys 1121 (parse hexint 1000 (new_SupervoltData 0) frame_rt) = Inr None"
proof -
  have a: "keys_ok sample_keys" by (simp add: keys_ok_def sample_keys_def startswith_def)
  have b: "well_formed (parse hexint 1000 (new_SupervoltData 0) frame_rt)" by code_simp
  have c: "parse hexint 1000 (new_SupervoltData 0) frame_rt =
     \<lparr> cellV = [Some (33 / 10), Some (33 / 10), Some (33 / 10), Some (33 / 10), Some 0,
                Some 0, Some 0, Some 0, Some 0, Some 0, Some 0, None, None, None, None, None],
       totalV = Some (66 / 5), soc = Some 80, workingState = Some 61440, alarm = Some 0,
       chargingA = Some 0, dischargingA = Some 5, loadA = Some 5,
       tempC = [Some 20, Some 20, Some 20, Some 20], completeAh = None,
       remainingAh = None, designedAh = None, lastUpdatetime = 1000, address = Some 0,
       command = Some 130, version = Some 49, length_field = Some 94,
       balanceState = Some 0, dischargeNumber = Some 1, chargeNumber = Some 2 \<rparr>"
    by code_simp
  show ?thesis
    using a b getData_snapshot [OF a b, of 1001] getData_snapshot [OF a b, of 1121]
    by (simp add: c sample_keys_def float_val_def int_val_def)
qed

section \<open>A frame that is abandoned\<close>

lemma block_fail_prefix:
  assumes "block ss r = (Some e, r')"
  shows "\<exists>k < length ss. \<exists>r0. block (take k ss) r = (None, r0) \<and> (ss ! k) r0 = (Some e, r')"
  using assms
proof (induction ss arbitrary: r)
  case Nil
  then show ?case by simp
next
  case (Cons s ss)
  obtain e1 r1 where s: "s r = (e1, r1)" by (cases "s r")
  show ?case
  proof (cases e1)
    case (Some x)
    then have "s r = (Some e, r')" using Cons.prems s by simp
    then show ?thesis by (intro exI[of _ 0]) simp
  next
    case None
    then have "block ss r1 = (Some e, r')" using Cons.prems s by simp
    from Cons.IH[OF this] obtain k r0 where k: "k < length ss"
      "block (take k ss) r1 = (None, r0)" "(ss ! k) r0 = (Some e, r')" by blast
    then show ?thesis using s None by (intro exI[of _ "Suc k"]) simp
  qed
qed

lemma block_map_pairs:
  "block (map (\<lambda>i. block [a i, b i]) is) r = block (concat (map (\<lambda>i. [a i, b i]) is)) r"
  by (induction "is" arbitrary: r) (auto split: prod.splits option.splits)

lemma header_keeps_lists:
  assumes "block (header hx data) r = (e, r')"
  shows "cellV r' = cellV r \<and> tempC r' = tempC r \<and> lastUpdatetime r' = lastUpdatetime r"
proof (rule block_invariant[where P = "\<lambda>x. cellV x = cellV r \<and> tempC x = tempC r
          \<and> lastUpdatetime x = lastUpdatetime r", OF _ _ assms])
  show "cellV r = cellV r \<and> tempC r = tempC r \<and> lastUpdatetime r = lastUpdatetime r"
    by simp
next
  fix s x e x'
  assume "s \<in> set (header hx data)"
    and "cellV x = cellV r \<and> tempC x = tempC r \<and> lastUpdatetime x = lastUpdatetime r"
    and "s x = (e, x')"
  then show "cellV x' = cellV r \<and> tempC x' = tempC r \<and> lastUpdatetime x' = lastUpdatetime r"
    by (auto simp: header_def hex_assign_def split: option.splits)
qed

lemma realtime_flat_eq:
  assumes "cellV r \<noteq> []"
  shows "block (realtime_fields hx data) r = block (realtime_flat hx data) r"
proof -
  obtain e0 r0 where h: "block (header hx data) r = (e0, r0)"
    by (cases "block (header hx data) r")
  have c: "cellV r0 \<noteq> []" using header_keeps_lists[OF h] assms by simp
  have loop: "block (map (cell_stmt hx data) [0..<11]) x
      = block (concat (map (\<lambda>i. [cell_store hx data i, cell_add i]) [0..<11])) x" for x
    using block_map_pairs[of "cell_store hx data" cell_add "[0..<11]" x]
    by (simp add: cell_stmt_def[abs_def])
  show ?thesis
    using h c loop
    by (cases e0) (simp_all add: realtime_fields_def realtime_flat_def cells_def block_append
        assign_def)
qed

lemma cell_store_success:
  "cell_store hx data i r = (None, r') \<longleftrightarrow>
     (\<exists>v. hx (cell_slot data i) = Some v \<and> i < length (cellV r)
          \<and> r' = r\<lparr>cellV := (cellV r)[i := Some (of_int v / 1000)]\<rparr>)"
  by (auto simp: cell_store_def split: option.splits)

lemma temp_stmt_success:
  assumes "tempC r \<noteq> []"
  shows "temp_stmt hx data i r = (None, r') \<longleftrightarrow>
     (\<exists>v. hx (slice data (97 + i * 2) (97 + i * 2 + 2)) = Some v \<and> i < length (tempC r)
          \<and> r' = r\<lparr>tempC := (tempC r)[i := Some (v - 40)]\<rparr>)"
  using assms by (auto simp: temp_stmt_def split: option.splits)

lemma cells_success:
  assumes "block (concat (map (\<lambda>i. [cell_store hx data i, cell_add i]) is)) r = (None, r')"
  shows "(\<forall>i \<in> set is. hx (cell_slot data i) \<noteq> None) \<and> tempC r' = tempC r"
  using assms
proof (induction "is" arbitrary: r)
  case Nil
  then show ?case by simp
next
  case (Cons i "is")
  from Cons.prems obtain r1 r2 where a: "cell_store hx data i r = (None, r1)"
    and b: "cell_add i r1 = (None, r2)"
    and c: "block (concat (map (\<lambda>i. [cell_store hx data i, cell_add i]) is)) r2 = (None, r')"
    by (auto simp: block_Cons_success simp del: block.simps(2))
  have "tempC r2 = tempC r" using a b
    by (auto simp: cell_store_success cell_add_def split: if_splits option.splits)
  then show ?case using Cons.IH[OF c] a by (auto simp: cell_store_success)
qed

lemma temps_success:
  assumes "block (map (temp_stmt hx data) is) r = (None, r')" and "tempC r \<noteq> []"
  shows "\<forall>i \<in> set is. hx (slice data (97 + i * 2) (97 + i * 2 + 2)) \<noteq> None"
  using assms
proof (induction "is" arbitrary: r)
  case Nil
  then show ?case by simp
next
  case (Cons i "is")
  from Cons.prems obtain r1 where a: "temp_stmt hx data i r = (None, r1)"
    and c: "block (map (temp_stmt hx data) is) r1 = (None, r')"
    by (auto simp: block_Cons_success simp del: block.simps(2))
  have "tempC r1 \<noteq> []" using a Cons.prems(2) by (auto simp: temp_stmt_success)
  then show ?case using Cons.IH[OF c] a Cons.prems(2) by (auto simp: temp_stmt_success)
qed

lemma header_fields_success:
  assumes "block (header hx data) r = (None, r')"
  shows "hx (slice data 1 3) \<noteq> None \<and> hx (slice data 3 5) \<noteq> None
       \<and> hx (slice data 5 7) \<noteq> None \<and> hx (slice data 7 11) \<noteq> None"
  using assms
  by (auto simp: header_def block_Cons_success hex_assign_success simp del: block.simps(2))

lemma status_fields_success:
  assumes "block (status hx data) r = (None, r')"
  shows "hx (slice data 105 109) \<noteq> None \<and> hx (slice data 109 111) \<noteq> None
       \<and> hx (slice data 111 115) \<noteq> None \<and> hx (slice data 115 119) \<noteq> None
       \<and> hx (slice data 119 123) \<noteq> None \<and> hx (slice data 123 125) \<noteq> None"
  using assms
  by (auto simp: status_def block_Cons_success hex_assign_success simp del: block.simps(2))

lemma currents_keep_tempC:
  assumes "block (currents hx data) r = (e, r')"
  shows "tempC r' = tempC r"
proof (rule block_invariant[where P = "\<lambda>x. tempC x = tempC r", OF _ _ assms])
  show "tempC r = tempC r" by simp
next
  fix s x e x'
  assume "s \<in> set (currents hx data)" "tempC x = tempC r" "s x = (e, x')"
  then show "tempC x' = tempC r"
    by (auto simp: currents_def hex_assign_def clamp_charging_def clamp_discharging_def
        set_loadA_def split: option.splits if_splits)
qed

lemma realtime_flat_success:
  assumes "block (realtime_flat hx data) r = (None, r')" and "tempC r \<noteq> []"
  shows "\<forall>(a, b) \<in> set rt_fields. hx (slice data a b) \<noteq> None"
proof -
  from assms(1) obtain r1 r2 r3 r4 r5 where
    h: "block (header hx data) r = (None, r1)"
    and z: "block [assign (\<lambda>r. r\<lparr>totalV := Some 0\<rparr>)] r1 = (None, r2)"
    and c: "block (concat (map (\<lambda>i. [cell_store hx data i, cell_add i]) [0..<11])) r2
              = (None, r3)"
    and i: "block (currents hx data) r3 = (None, r4)"
    and t: "block (map (temp_stmt hx data) [0..<4]) r4 = (None, r5)"
    and s: "block (status hx data) r5 = (None, r')"
    unfolding realtime_flat_def block_success_append by blast
  have t1: "tempC r1 = tempC r" using header_keeps_lists[OF h] by simp
  have t2: "tempC r2 = tempC r1" using z by (auto simp: assign_def)
  have t3: "tempC r3 = tempC r2" using cells_success[OF c] by simp
  have t4: "tempC r4 \<noteq> []" using currents_keep_tempC[OF i] t1 t2 t3 assms(2) by simp
  have cur: "hx (slice data 89 93) \<noteq> None \<and> hx (slice data 93 97) \<noteq> None"
    using currents_success[OF i] by auto
  have cs: "\<forall>i \<in> set [0..<11]. hx (slice data (25 + i * 4) (25 + i * 4 + 4)) \<noteq> None"
    using cells_success[OF c] by (simp add: cell_slot_def)
  show ?thesis
    using header_fields_success[OF h] cs cur temps_success[OF t t4]
      status_fields_success[OF s]
    by (auto simp: rt_fields_def)
qed

lemma capacity_fields_success:
  assumes "block (capacity_fields hx data) r = (None, r')"
  shows "\<forall>(a, b) \<in> set cap_fields. hx (slice data a b) \<noteq> None"
  using assms
  by (auto simp: capacity_fields_def header_def cap_fields_def block_Cons_success
      hex_assign_success simp del: block.simps(2))


lemma flat_stmt_cases:
  assumes "st \<in> set (realtime_flat hx data)"
  shows "st \<in> set (header hx data) \<or> st = assign (\<lambda>r. r\<lparr>totalV := Some 0\<rparr>)
       \<or> (\<exists>i. st = cell_store hx data i) \<or> (\<exists>i. st = cell_add i)
       \<or> st \<in> set (currents hx data) \<or> (\<exists>i. st = temp_stmt hx data i)
       \<or> st \<in> set (status hx data)"
  using assms by (auto simp: realtime_flat_def)

lemma flat_stmt:
  assumes "st \<in> set (realtime_flat hx data) \<or> st \<in> set (capacity_fields hx data)"
    and "st x = (e, x')"
  shows "lastUpdatetime x' = lastUpdatetime x \<and> (e \<noteq> None \<longrightarrow> x' = x)"
proof -
  consider "st \<in> set (header hx data)" | "st = assign (\<lambda>r. r\<lparr>totalV := Some 0\<rparr>)"
    | i where "st = cell_store hx data i" | i where "st = cell_add i"
    | "st \<in> set (currents hx data)" | i where "st = temp_stmt hx data i"
    | "st \<in> set (status hx data)"
    | "st \<in> set (capacity_fields hx data)"
    using assms(1) flat_stmt_cases[of st hx data] by blast
  then show ?thesis
  proof cases
    case 1
    then show ?thesis using assms(2)
      by (auto simp: header_def hex_assign_def split: option.splits)
  next
    case 2
    then show ?thesis using assms(2) by (auto simp: assign_def)
  next
    case 3
    then show ?thesis using assms(2)
      by (auto simp: cell_store_def split: option.splits if_splits)
  next
    case 4
    then show ?thesis using assms(2)
      by (auto simp: cell_add_def split: option.splits if_splits)
  next
    case 5
    then show ?thesis using assms(2)
      by (auto simp: currents_def hex_assign_def clamp_charging_def clamp_discharging_def
          set_loadA_def split: option.splits if_splits)
  next
    case 6
    then show ?thesis using assms(2)
      by (auto simp: temp_stmt_def split: option.splits if_splits)
  next
    case 7
    then show ?thesis using assms(2)
      by (auto simp: status_def hex_assign_def split: option.splits)
  next
    case 8
    then show ?thesis using assms(2)
      by (auto simp: capacity_fields_def header_def hex_assign_def split: option.splits)
  qed
qed

lemma aborted_block:
  assumes ss: "set ss \<subseteq> set (realtime_flat hx data) \<or> set ss \<subseteq> set (capacity_fields hx data)"
    and fail: "fst (block ss r) \<noteq> None"
  shows "lastUpdatetime (snd (block (ss @ [stamp now]) r)) = lastUpdatetime r
       \<and> (\<exists>k < length ss.
            block (take k ss) r = (None, snd (block (ss @ [stamp now]) r))
            \<and> fst ((ss ! k) (snd (block (ss @ [stamp now]) r))) \<noteq> None
            \<and> snd ((ss ! k) (snd (block (ss @ [stamp now]) r)))
                = snd (block (ss @ [stamp now]) r))"
proof -
  from fail obtain e r1 where b: "block ss r = (Some e, r1)"
    by (cases "block ss r") auto
  have all: "snd (block (ss @ [stamp now]) r) = r1" using b by (simp add: block_append)
  have mem: "st \<in> set (realtime_flat hx data) \<or> st \<in> set (capacity_fields hx data)"
    if "st \<in> set ss" for st using ss that by blast
  have stamp: "lastUpdatetime r1 = lastUpdatetime r"
  proof (rule block_invariant[where P = "\<lambda>x. lastUpdatetime x = lastUpdatetime r", OF _ _ b])
    show "lastUpdatetime r = lastUpdatetime r" by simp
  next
    fix st x e x'
    assume "st \<in> set ss" "lastUpdatetime x = lastUpdatetime r" "st x = (e, x')"
    then show "lastUpdatetime x' = lastUpdatetime r" using flat_stmt[OF mem] by simp
  qed
  from block_fail_prefix[OF b] obtain k r0 where k: "k < length ss"
    "block (take k ss) r = (None, r0)" "(ss ! k) r0 = (Some e, r1)" by blast
  have "r1 = r0" using flat_stmt[OF mem[OF nth_mem[OF k(1)]] k(3)] by simp
  then show ?thesis using all stamp k by auto
qed

text \<open>
  Where a frame is abandoned: when a region the decoder reads is no hexadecimal text,
  the statements before the failing one run without raising and end in the record
  \<open>parse\<close> returns, the failing statement changes nothing, and the time stamp is not
  set.
\<close>

lemma aborted_frame_prefix:
  assumes "well_formed r"
    and "length data = 128 \<and> (\<exists>(a, b) \<in> set rt_fields. hx (slice data a b) = None)
       \<or> length data = 30 \<and> (\<exists>(a, b) \<in> set cap_fields. hx (slice data a b) = None)"
  shows "lastUpdatetime (parse hx now r data) = lastUpdatetime r
       \<and> (\<exists>k < length (frame_stmts hx data).
            block (take k (frame_stmts hx data)) r = (None, parse hx now r data)
            \<and> fst ((frame_stmts hx data ! k) (parse hx now r data)) \<noteq> None
            \<and> snd ((frame_stmts hx data ! k) (parse hx now r data)) = parse hx now r data)"
proof -
  have lists: "cellV r \<noteq> []" "tempC r \<noteq> []" using assms(1) by (auto simp: well_formed_def)
  have data: "data \<noteq> []" using assms(2) by auto
  have p: "parse hx now r data = snd (block (frame_stmts hx data @ [stamp now]) r)"
    using assms(2) data realtime_flat_eq[OF lists(1), of hx data]
    by (auto simp: parse_def parse_body_def frame_stmts_def realtime_def capacity_def
        block_append)
  have fail: "fst (block (frame_stmts hx data) r) \<noteq> None"
  proof
    assume "fst (block (frame_stmts hx data) r) = None"
    then have ok: "block (frame_stmts hx data) r = (None, snd (block (frame_stmts hx data) r))"
      by (simp add: prod_eq_iff)
    from assms(2) show False
    proof
      assume a: "length data = 128 \<and> (\<exists>(a, b) \<in> set rt_fields. hx (slice data a b) = None)"
      then have "block (realtime_flat hx data) r
                   = (None, snd (block (frame_stmts hx data) r))"
        using ok by (simp add: frame_stmts_def)
      from realtime_flat_success[OF this lists(2)] a show False by fastforce
    next
      assume a: "length data = 30 \<and> (\<exists>(a, b) \<in> set cap_fields. hx (slice data a b) = None)"
      then have "block (capacity_fields hx data) r
                   = (None, snd (block (frame_stmts hx data) r))"
        using ok by (simp add: frame_stmts_def)
      from capacity_fields_success[OF this] a show False by fastforce
    qed
  qed
  have sub: "set (frame_stmts hx data) \<subseteq> set (realtime_flat hx data)
           \<or> set (frame_stmts hx data) \<subseteq> set (capacity_fields hx data)"
    by (simp add: frame_stmts_def)
  show ?thesis unfolding p by (rule aborted_block[OF sub fail])
qed

section \<open>Records of the program\<close>

text \<open>
  \<open>well_formed\<close> holds of a new record and is kept by \<open>parse\<close> and by \<open>resetValues\<close>,
  the only functions that change a record.
\<close>

lemma well_formed_new: "well_formed (new_SupervoltData t0)"
  by (simp add: well_formed_def new_SupervoltData_def)

lemma well_formed_reset: "well_formed r \<Longrightarrow> well_formed (resetValues r)"
  by (simp add: resetValues_wf) (simp add: well_formed_def)

lemma flat_stmt_cells:
  assumes "st \<in> set (concat (map (\<lambda>i. [cell_store hx data i, cell_add i]) [0..<11]))"
  shows "\<exists>i < 11. st = cell_store hx data i \<or> st = cell_add i"
  using assms by auto

lemma flat_stmt_well_formed:
  assumes "st \<in> set (realtime_flat hx data) \<or> st \<in> set (capacity_fields hx data)"
    and "st x = (e, x')" and "well_formed x"
  shows "well_formed x'"
proof -
  consider "st \<in> set (header hx data)" | "st = assign (\<lambda>r. r\<lparr>totalV := Some 0\<rparr>)"
    | "st \<in> set (concat (map (\<lambda>i. [cell_store hx data i, cell_add i]) [0..<11]))"
    | "st \<in> set (currents hx data)" | "st \<in> set (map (temp_stmt hx data) [0..<4])"
    | "st \<in> set (status hx data)"
    | "st \<in> set (capacity_fields hx data)"
    using assms(1) unfolding realtime_flat_def set_append by auto
  then show ?thesis
  proof cases
    case 1
    then show ?thesis using assms(2,3)
      by (auto simp: header_def hex_assign_def well_formed_def split: option.splits)
  next
    case 2
    then show ?thesis using assms(2,3) by (auto simp: assign_def well_formed_def)
  next
    case 3
    then obtain i where "i < 11" "st = cell_store hx data i \<or> st = cell_add i"
      using flat_stmt_cells by blast
    then show ?thesis using assms(2,3)
      by (auto simp: cell_store_def cell_add_def well_formed_def drop_update_cancel
          split: option.splits if_splits)
  next
    case 4
    then show ?thesis using assms(2,3)
      by (auto simp: currents_def hex_assign_def clamp_charging_def clamp_discharging_def
          set_loadA_def well_formed_def split: option.splits if_splits)
  next
    case 5
    then show ?thesis using assms(2,3)
      by (auto simp: temp_stmt_def well_formed_def split: option.splits if_splits)
  next
    case 6
    then show ?thesis using assms(2,3)
      by (auto simp: status_def hex_assign_def well_formed_def split: option.splits)
  next
    case 7
    then show ?thesis using assms(2,3)
      by (auto simp: capacity_fields_def header_def hex_assign_def well_formed_def
          split: option.splits)
  qed
qed

lemma well_formed_parse:
  assumes "well_formed r"
  shows "well_formed (parse hx now r data)"
proof -
  have c: "cellV r \<noteq> []" using assms by (auto simp: well_formed_def)
  have blk: "well_formed r'"
    if "block (frame_stmts hx data) r = (e, r')" for e r'
  proof (rule block_invariant[where P = well_formed, OF _ assms that])
    fix st x e x'
    assume "st \<in> set (frame_stmts hx data)" "well_formed x" "st x = (e, x')"
    then show "well_formed x'"
      using flat_stmt_well_formed[of st hx data x e x'] by (auto simp: frame_stmts_def split: if_splits)
  qed
  obtain e r1 where b: "block (frame_stmts hx data) r = (e, r1)"
    by (cases "block (frame_stmts hx data) r")
  have st: "well_formed (r1\<lparr>lastUpdatetime := now\<rparr>)" "well_formed r1"
    using blk[OF b] by (auto simp: well_formed_def)
  show ?thesis
    using assms st b realtime_flat_eq[OF c, of hx data]
    by (cases e) (auto simp: parse_def parse_body_def frame_stmts_def realtime_def
        capacity_def block_append stamp_def assign_def split: if_splits)
qed

section \<open>A poll without notifications\<close>

lemma connect_ok:
  assumes "client (self s) = Some True
           \<or> connect_raises sc = None \<and> start_notify_raises sc = None"
    and "rx_connect sc = []"
  shows "\<exists>s1. connect hx sc s = (None, s1) \<and> store s1 = store s
            \<and> supervoltData (self s1) = supervoltData (self s) \<and> client (self s1) \<noteq> None"
  using assms
  by (auto simp: connect_def Let_def set_client_def await_def called_def deliver_def)

lemma connect_calls:
  assumes "client (self s) = Some True
           \<or> connect_raises sc = None \<and> start_notify_raises sc = None"
    and "rx_connect sc = []" and "connect hx sc s = (e, s1)"
  shows "data_event (self s1) = data_event (self s)
       \<and> (\<exists>new. calls s1 = calls s @ new \<and> filter is_write new = [])"
  using assms
  by (auto simp: connect_def Let_def set_client_def await_def called_def deliver_def
      split: if_splits)

text \<open>
  The writes of an exchange without notifications: the first command once; the second
  command once, and only when the first write went through and the first wait ended at
  once because the event was still set.
\<close>

lemma rest_calls:
  assumes "block [ await (WriteChar c1) x1, wait_event hx [], await (WriteChar c2) x2,
                   wait_event hx [], disconnect sc ] s2 = (e3, s3)"
  shows "\<exists>new. calls s3 = calls s2 @ new
           \<and> filter is_write new
               = (if x1 = None \<and> data_event (self s2) then [WriteChar c1, WriteChar c2]
                  else [WriteChar c1])"
  using assms
  by (auto simp: await_def called_def wait_event_def deliver_def set_event_def Let_def
      disconnect_def catch_BleakError_def set_client_def
      split: if_splits option.splits prod.splits)

lemma quiet_stmt:
  assumes "st \<in> set [ await c1 x1, wait_event hx [], await c2 x2, wait_event hx [],
                        disconnect sc ]"
    and "st x = (e, x')"
  shows "store x' = store x \<and> supervoltData (self x') = supervoltData (self x)"
  using assms
  by (auto simp: await_def called_def wait_event_def deliver_def set_event_def Let_def
      disconnect_def catch_BleakError_def set_client_def
      split: if_splits option.splits prod.splits)

lemma block_Cons_None: "p r = (None, r1) \<Longrightarrow> block (p # ps) r = block ps r1"
  by simp

lemma block_single: "block [p] r = p r"
  by (simp split: prod.splits option.splits)

text \<open>
  C1, as the claim states it, fails: a new driver whose transport connects and accepts
  the command but never notifies does not return a "no data" value: the time-out of
  the first wait is caught, the snapshot is \<^verbatim>\<open>None\<close> and the \<^verbatim>\<open>assert\<close> of line 469
  raises. The calls made to the transport are connect, start-notify and one write;
  \<^verbatim>\<open>disconnect\<close>, which follows the second wait inside the \<^verbatim>\<open>try\<close>, is not among
  them.
\<close>

theorem poll_timeout_raises:
  "fst (async_update hexint (\<lambda>d. d) sample_keys silent driver0) = Inl AssertionError
   \<and> calls (snd (async_update hexint (\<lambda>d. d) sample_keys silent driver0))
       = [Connect, StartNotify, WriteChar '':000250000E03~'']"
  by code_simp

text \<open>
  C1, amended. For every poll of a driver whose record is a record of the program, in
  which the connection stands or is set up without error and no notification reaches
  the callback: whatever the writes and the waits do, the poll ends by raising
  \<open>AssertionError\<close>, it returns no measurements, and the record is left as the reset
  at the start of the exchange made it. Nothing is retried: of the calls the poll
  makes, the writes are the first command, once, followed by the second command, once,
  only when the first write went through and the event was still set when the poll
  began (so that the first wait ended at once); otherwise the first command is the
  only write.
\<close>

theorem poll_without_notification_fails:
  assumes ref: "supervoltData (self s) < length (store s)"
    and wf: "well_formed (the_data s)"
    and con: "client (self s) = Some True
              \<or> connect_raises sc = None \<and> start_notify_raises sc = None"
    and rx: "rx_connect sc = []" "rx_wait1 sc = []" "rx_wait2 sc = []"
  shows "fst (async_update hx calc_values K sc s) = Inl AssertionError
       \<and> the_data (snd (async_update hx calc_values K sc s)) = resetValues (the_data s)
       \<and> (\<exists>new. calls (snd (async_update hx calc_values K sc s)) = calls s @ new
             \<and> filter is_write new
                 = (if write1_raises sc = None \<and> data_event (self s)
                    then [WriteChar '':000250000E03~'', WriteChar '':001031000E05~'']
                    else [WriteChar '':000250000E03~'']))"
proof -
  from connect_ok[OF con rx(1), of hx] obtain s1 where
    s1: "connect hx sc s = (None, s1)" "store s1 = store s"
      "supervoltData (self s1) = supervoltData (self s)" "client (self s1) \<noteq> None" by blast
  define s2 where "s2 = on_data resetValues s1"
  let ?reset = "\<lambda>s. (None :: exn option, on_data resetValues s)"
  let ?rest = "[ await (WriteChar '':000250000E03~'') (write1_raises sc),
                 wait_event hx (rx_wait1 sc),
                 await (WriteChar '':001031000E05~'') (write2_raises sc),
                 wait_event hx (rx_wait2 sc),
                 disconnect sc ]"
  let ?guard = "\<lambda>s. if client (self s) \<noteq> None then block (?reset # ?rest) s else (None, s)"
  obtain e3 s3 where s3: "block ?rest s2 = (e3, s3)" by (cases "block ?rest s2")
  have keep: "store s3 = store s2 \<and> supervoltData (self s3) = supervoltData (self s2)"
  proof (rule block_invariant[where P = "\<lambda>x. store x = store s2
            \<and> supervoltData (self x) = supervoltData (self s2)", OF _ _ s3])
    show "store s2 = store s2 \<and> supervoltData (self s2) = supervoltData (self s2)" by simp
  next
    fix st x e x'
    assume "st \<in> set ?rest"
      and "store x = store s2 \<and> supervoltData (self x) = supervoltData (self s2)"
      and "st x = (e, x')"
    then show "store x' = store s2 \<and> supervoltData (self x') = supervoltData (self s2)"
      using quiet_stmt[of st _ _ hx _ _ sc x e x'] rx by simp
  qed
  have d2: "the_data s2 = resetValues (the_data s)"
    using s1 ref by (simp add: s2_def on_data_def the_data_def)
  have d3: "the_data s3 = resetValues (the_data s)"
    using keep d2 by (simp add: the_data_def)
  have a: "block (exchange hx sc) s = block [?guard] s1"
    unfolding exchange_def
    by (rule block_Cons_None[where p = "connect hx sc" and r = s, OF s1(1)])
  have b: "?guard s1 = block (?reset # ?rest) s1" using s1(4) by (simp only: if_True not_False_eq_True simp_thms)
  have c: "block (?reset # ?rest) s1 = block ?rest s2"
    unfolding s2_def by simp
  have ex: "block (exchange hx sc) s = (e3, s3)"
    using a b c s3 by (simp only: block_single)
  have "totalV (resetValues (the_data s)) = None" by (simp add: resetValues_wf[OF wf])
  then have g: "getData K (t_read sc) (the_data s3) = Inr None"
    using d3 by (simp add: getData_unset)
  from connect_calls[OF con rx(1) s1(1)] obtain new0 where
    ev: "data_event (self s1) = data_event (self s)"
    and c0: "calls s1 = calls s @ new0" "filter is_write new0 = []" by blast
  have s2': "calls s2 = calls s1" "data_event (self s2) = data_event (self s1)"
    by (simp_all add: s2_def on_data_def)
  from rest_calls[OF s3[unfolded rx]] obtain new1 where
    c1: "calls s3 = calls s2 @ new1"
      "filter is_write new1
         = (if write1_raises sc = None \<and> data_event (self s2)
            then [WriteChar '':000250000E03~'', WriteChar '':001031000E05~'']
            else [WriteChar '':000250000E03~''])" by blast
  have w: "calls s3 = calls s @ (new0 @ new1)"
    "filter is_write (new0 @ new1)
       = (if write1_raises sc = None \<and> data_event (self s)
          then [WriteChar '':000250000E03~'', WriteChar '':001031000E05~'']
          else [WriteChar '':000250000E03~''])"
    using c0 c1 s2' ev by simp_all
  have r: "async_update hx calc_values K sc s = (Inl AssertionError, s3)"
    using ex g by (simp add: async_update_def)
  show ?thesis unfolding r using d3 w by (simp only: fst_conv snd_conv) blast
qed

theorem poll_without_notification_fails_witness:
  "totalV (the_data driver1) = Some (66 / 5)
   \<and> fst (async_update hexint (\<lambda>d. d) sample_keys silent driver1) = Inl AssertionError
   \<and> totalV (the_data (snd (async_update hexint (\<lambda>d. d) sample_keys silent driver1)))
       = None
   \<and> filter is_write (calls (snd (async_update hexint (\<lambda>d. d) sample_keys silent driver1)))
       = [WriteChar '':000250000E03~'', WriteChar '':001031000E05~'']
   \<and> filter is_write (calls (snd (async_update hexint (\<lambda>d. d) sample_keys silent driver0)))
       = [WriteChar '':000250000E03~'']"
proof -
  have a: "supervoltData (self driver1) < length (store driver1)"
    by (simp add: driver1_def)
  have b: "well_formed (the_data driver1)" by code_simp
  have c: "client (self driver1) = Some True
           \<or> connect_raises silent = None \<and> start_notify_raises silent = None"
    by (simp add: driver1_def)
  have d: "rx_connect silent = []" "rx_wait1 silent = []" "rx_wait2 silent = []"
    by (simp_all add: silent_def)
  have e: "totalV (the_data driver1) = Some (66 / 5)" by code_simp
  have f: "totalV (resetValues (the_data driver1)) = None" by code_simp
  have a0: "supervoltData (self driver0) < length (store driver0)"
    by (simp add: driver0_def)
  have b0: "well_formed (the_data driver0)" by code_simp
  have c0: "client (self driver0) = Some True
           \<or> connect_raises silent = None \<and> start_notify_raises silent = None"
    by (simp add: silent_def)
  have i: "write1_raises silent = None" "data_event (self driver1)"
    "\<not> data_event (self driver0)" "calls driver1 = []" "calls driver0 = []"
    by (simp_all add: silent_def driver1_def driver0_def)
  show ?thesis
    using e f i
      poll_without_notification_fails [OF a b c d, of hexint "\<lambda>d. d" sample_keys]
      poll_without_notification_fails [OF a0 b0 c0 d, of hexint "\<lambda>d. d" sample_keys]
    by auto
qed

section \<open>A second driver for the same device\<close>

text \<open>
  C2. The code does not do what the claim says. Nothing writes the class dictionary
  \<open>supervoltDatas\<close>: \<open>BMS_init\<close> only reads it, and the poll has no access to it. So
  the lookup of \<^verbatim>\<open>__init__\<close> never finds the device name, and a driver built for a
  name the dictionary lacks gets a reference to a new record, with every reading unset,
  while the dictionary and the records of earlier drivers stay as they were.
\<close>

theorem new_driver_gets_blank_record:
  assumes "map_of (supervoltDatas w) n = None"
  shows "\<exists>w' b. BMS_init t0 w (Some n) = Inr (w', b)
           \<and> supervoltDatas w' = supervoltDatas w
           \<and> take (length (objs w)) (objs w') = objs w
           \<and> supervoltData b = length (objs w)
           \<and> objs w' ! supervoltData b = new_SupervoltData t0"
  using assms by (simp add: BMS_init_def Let_def)

text \<open>
  In \<open>world1\<close> a first driver for \<^verbatim>\<open>libatt1\<close> has decoded a realtime frame into its
  record, object 0, whose total voltage is 13.2. A second driver for \<^verbatim>\<open>libatt1\<close> is
  bound to object 1, a blank record.
\<close>

theorem new_driver_gets_blank_record_witness:
  "supervoltDatas world1 = [] \<and> length (objs world1) = 1
   \<and> totalV (objs world1 ! 0) = Some (66 / 5)
   \<and> (\<exists>w' b. BMS_init 0 world1 (Some ''libatt1'') = Inr (w', b)
         \<and> supervoltData b = 1 \<and> totalV (objs w' ! supervoltData b) = None
         \<and> totalV (objs w' ! 0) = Some (66 / 5))"
proof -
  have a: "supervoltDatas world1 = []" "length (objs world1) = 1"
    "totalV (objs world1 ! 0) = Some (66 / 5)"
    by code_simp+
  have b: "map_of (supervoltDatas world1) ''libatt1'' = None" using a(1) by simp
  from new_driver_gets_blank_record [OF b, of 0] obtain w' b' where
    i: "BMS_init 0 world1 (Some ''libatt1'') = Inr (w', b')"
    and k: "take (length (objs world1)) (objs w') = objs world1"
    and r: "supervoltData b' = length (objs world1)"
    and n: "objs w' ! supervoltData b' = new_SupervoltData 0"
    by blast
  have "objs world1 ! 0 = take (length (objs world1)) (objs w') ! 0" using k by simp
  also have "\<dots> = objs w' ! 0" using a(2) by (simp only: nth_take lessI One_nat_def)
  finally have o: "objs w' ! 0 = objs world1 ! 0" by simp
  have t: "totalV (objs w' ! supervoltData b') = None"
    using n by (simp add: new_SupervoltData_def)
  show ?thesis
    using a i r o t by simp
qed

section \<open>The fields of an abandoned frame\<close>

text \<open>
  The statements of \<open>parse\<close> and the best-effort decode of the field tables do the same
  to a record of the program, part by part.
\<close>

lemma best_effort_append:
  "best_effort hx data (T1 @ T2) r =
     (case best_effort hx data T1 r of
        (True, r') \<Rightarrow> best_effort hx data T2 r'
      | (False, r') \<Rightarrow> (False, r'))"
  by (induction hx data T1 r rule: best_effort.induct) (auto split: option.splits)

lemma best_effort_complete:
  "fst (best_effort hx data T r)
     \<longleftrightarrow> (\<forall>e \<in> set T. hx (slice data (fst (fst e)) (snd (fst e))) \<noteq> None)"
  by (induction hx data T r rule: best_effort.induct) (auto split: option.splits)

lemma refine_append:
  assumes "outcome (block A r) = best_effort hx data TA r"
    and "\<And>r'. block A r = (None, r') \<Longrightarrow> outcome (block B r') = best_effort hx data TB r'"
  shows "outcome (block (A @ B) r) = best_effort hx data (TA @ TB) r"
proof (cases "block A r")
  case (Pair e r1)
  show ?thesis
  proof (cases e)
    case None
    then have "best_effort hx data TA r = (True, r1)"
      using assms(1) Pair by (simp add: outcome_def)
    then show ?thesis
      using assms(2)[of r1] Pair None by (simp add: block_append best_effort_append)
  next
    case (Some x)
    then have "best_effort hx data TA r = (False, r1)"
      using assms(1) Pair by (simp add: outcome_def)
    then show ?thesis
      using Pair Some by (simp add: block_append best_effort_append outcome_def)
  qed
qed

lemma header_refines:
  "outcome (block (header hx data) r)
     = best_effort hx data (header_entries @ [((7, 11), \<lambda>v r. r\<lparr>length_field := Some v\<rparr>)]) r"
  by (simp add: header_def header_entries_def hex_assign_def outcome_def
      split: option.splits)

lemma header_reset_refines:
  "outcome (block (header hx data @ [assign (\<lambda>r. r\<lparr>totalV := Some 0\<rparr>)]) r)
     = best_effort hx data
         (header_entries @ [((7, 11), \<lambda>v r. r\<lparr>length_field := Some v, totalV := Some 0\<rparr>)]) r"
  by (simp add: header_def header_entries_def hex_assign_def assign_def outcome_def
      split: option.splits)

lemma header_reset_state:
  assumes "block (header hx data @ [assign (\<lambda>r. r\<lparr>totalV := Some 0\<rparr>)]) r = (None, r')"
  shows "cellV r' = cellV r \<and> tempC r' = tempC r \<and> totalV r' = Some 0"
  using assms
  by (auto simp: header_def hex_assign_def assign_def split: option.splits)

lemma cells_refine:
  assumes "n \<le> length (cellV r)" and "totalV r = Some t"
  shows "outcome (block (map (cell_stmt hx data) [0..<n]) r)
           = best_effort hx data (map cell_entry [0..<n]) r"
  using assms
proof (induction n)
  case 0
  then show ?case by (simp add: outcome_def)
next
  case (Suc n)
  have n: "n \<le> length (cellV r)" using Suc.prems(1) by simp
  have "outcome (block (map (cell_stmt hx data) [0..<n] @ [cell_stmt hx data n]) r)
          = best_effort hx data (map cell_entry [0..<n] @ [cell_entry n]) r"
  proof (rule refine_append)
    show "outcome (block (map (cell_stmt hx data) [0..<n]) r)
            = best_effort hx data (map cell_entry [0..<n]) r"
      by (rule Suc.IH[OF n Suc.prems(2)])
  next
    fix r1
    assume b: "block (map (cell_stmt hx data) [0..<n]) r = (None, r1)"
    from cells_loop[OF n Suc.prems(2) b] obtain t1 where
      t1: "totalV r1 = Some t1" and len: "length (cellV r1) = length (cellV r)" by blast
    have i: "n < length (cellV r1)" using len Suc.prems(1) by simp
    show "outcome (block [cell_stmt hx data n] r1) = best_effort hx data [cell_entry n] r1"
      using cell_stmt_eq[OF i t1, of hx data] t1
      by (simp add: outcome_def cell_entry_def cell_slot_def split: option.splits)
  qed
  then show ?case by simp
qed

lemma cell_stmt_keeps_tempC:
  assumes "s \<in> set (map (cell_stmt hx data) is)" and "s x = (e, x')"
  shows "tempC x' = tempC x"
  using assms
  by (auto simp: cell_stmt_def cell_store_def cell_add_def split: option.splits if_splits)

lemma currents_refine:
  "outcome (block (currents hx data) r) = best_effort hx data current_entries r"
  by (simp add: currents_def current_entries_def hex_assign_def clamp_charging_def
      clamp_discharging_def set_loadA_def outcome_def plausible_def split: option.splits)

lemma temps_refine:
  assumes "length (tempC r) = 4"
  shows "outcome (block (map (temp_stmt hx data) [0..<4]) r)
           = best_effort hx data (map temp_entry [0..<4]) r"
proof -
  have ne: "tempC r \<noteq> []" using assms by auto
  show ?thesis
    using assms ne
    by (simp add: upt_4 temp_stmt_def temp_entry_def outcome_def split: option.splits)
qed

lemma status_refine:
  "outcome (block (status hx data) r) = best_effort hx data status_entries r"
  by (simp add: status_def status_entries_def hex_assign_def outcome_def
      split: option.splits)


lemma guard_cells_refine:
  assumes "11 \<le> length (cellV r)" and "totalV r = Some t"
  shows "outcome (block [\<lambda>r. if cellV r \<noteq> [] then block (map (cell_stmt hx data) [0..<11]) r
                              else (None, r)] r)
           = best_effort hx data (map cell_entry [0..<11]) r"
proof -
  have "cellV r \<noteq> []" using assms(1) by auto
  then show ?thesis
    using cells_refine[OF assms, of hx data] by (simp add: block_single del: block.simps)
qed

lemma guard_cells_keep_tempC:
  assumes "block [\<lambda>r. if cellV r \<noteq> [] then block (map (cell_stmt hx data) [0..<11]) r
                       else (None, r)] r = (e, r')"
  shows "tempC r' = tempC r"
proof (cases "cellV r \<noteq> []")
  case True
  then have b: "block (map (cell_stmt hx data) [0..<11]) r = (e, r')"
    using assms by (simp add: block_single del: block.simps)
  show ?thesis
  proof (rule block_invariant[where P = "\<lambda>x. tempC x = tempC r", OF _ _ b])
    show "tempC r = tempC r" by simp
  next
    fix s x e x'
    assume m: "s \<in> set (map (cell_stmt hx data) [0..<11])"
      and t: "tempC x = tempC r" and sx: "s x = (e, x')"
    show "tempC x' = tempC r" using cell_stmt_keeps_tempC[OF m sx] t by simp
  qed
next
  case False
  then show ?thesis using assms by (simp add: block_single del: block.simps)
qed

lemma realtime_refines:
  assumes "well_formed r"
  shows "outcome (block (realtime_fields hx data) r) = best_effort hx data realtime_table r"
proof -
  let ?H = "header hx data @ [assign (\<lambda>r. r\<lparr>totalV := Some 0\<rparr>)]"
  let ?G = "[\<lambda>r. if cellV r \<noteq> [] then block (map (cell_stmt hx data) [0..<11]) r
                  else (None, r)]"
  let ?TH = "header_entries
               @ [((7, 11), \<lambda>v r. r\<lparr>length_field := Some v, totalV := Some 0\<rparr>)]"
  have lists: "length (cellV r) = 16" "length (tempC r) = 4"
    using assms by (auto simp: well_formed_def)
  have "outcome (block (?H @ ?G @ currents hx data @ map (temp_stmt hx data) [0..<4]
                    @ status hx data) r)
      = best_effort hx data (?TH @ map cell_entry [0..<11] @ current_entries
                    @ map temp_entry [0..<4] @ status_entries) r"
  proof (rule refine_append)
    show "outcome (block ?H r) = best_effort hx data ?TH r" by (rule header_reset_refines)
  next
    fix r1
    assume h: "block ?H r = (None, r1)"
    note s1 = header_reset_state[OF h]
    have c1: "11 \<le> length (cellV r1)" and t1: "totalV r1 = Some 0" using s1 lists by auto
    show "outcome (block (?G @ currents hx data @ map (temp_stmt hx data) [0..<4]
                      @ status hx data) r1)
        = best_effort hx data (map cell_entry [0..<11] @ current_entries
                      @ map temp_entry [0..<4] @ status_entries) r1"
    proof (rule refine_append)
      show "outcome (block ?G r1) = best_effort hx data (map cell_entry [0..<11]) r1"
        by (rule guard_cells_refine[OF c1 t1])
    next
      fix r2
      assume g: "block ?G r1 = (None, r2)"
      have t2: "tempC r2 = tempC r" using guard_cells_keep_tempC[OF g] s1 by simp
      show "outcome (block (currents hx data @ map (temp_stmt hx data) [0..<4]
                        @ status hx data) r2)
          = best_effort hx data (current_entries @ map temp_entry [0..<4]
                        @ status_entries) r2"
      proof (rule refine_append)
        show "outcome (block (currents hx data) r2) = best_effort hx data current_entries r2"
          by (rule currents_refine)
      next
        fix r3
        assume c: "block (currents hx data) r2 = (None, r3)"
        have t3: "length (tempC r3) = 4" using currents_keep_tempC[OF c] t2 lists by simp
        show "outcome (block (map (temp_stmt hx data) [0..<4] @ status hx data) r3)
            = best_effort hx data (map temp_entry [0..<4] @ status_entries) r3"
        proof (rule refine_append)
          show "outcome (block (map (temp_stmt hx data) [0..<4]) r3)
                  = best_effort hx data (map temp_entry [0..<4]) r3"
            by (rule temps_refine[OF t3])
        next
          fix r4
          show "outcome (block (status hx data) r4) = best_effort hx data status_entries r4"
            by (rule status_refine)
        qed
      qed
    qed
  qed
  then show ?thesis by (simp add: realtime_fields_def realtime_table_def cells_def)
qed

lemma capacity_refines:
  "outcome (block (capacity_fields hx data) r) = best_effort hx data capacity_table r"
proof -
  have "outcome (block (header hx data @
          [ hex_assign hx data 15 19 (\<lambda>v r. r\<lparr>remainingAh := Some (of_int v / 10)\<rparr>),
            hex_assign hx data 19 23 (\<lambda>v r. r\<lparr>completeAh := Some (of_int v / 10)\<rparr>),
            hex_assign hx data 23 27 (\<lambda>v r. r\<lparr>designedAh := Some (of_int v / 10)\<rparr>) ]) r)
      = best_effort hx data
          ((header_entries @ [((7, 11), \<lambda>v r. r\<lparr>length_field := Some v\<rparr>)])
           @ [ ((15, 19), \<lambda>v r. r\<lparr>remainingAh := Some (of_int v / 10)\<rparr>),
               ((19, 23), \<lambda>v r. r\<lparr>completeAh := Some (of_int v / 10)\<rparr>),
               ((23, 27), \<lambda>v r. r\<lparr>designedAh := Some (of_int v / 10)\<rparr>) ]) r"
  proof (rule refine_append)
    show "outcome (block (header hx data) r)
            = best_effort hx data
                (header_entries @ [((7, 11), \<lambda>v r. r\<lparr>length_field := Some v\<rparr>)]) r"
      by (rule header_refines)
  next
    fix r1
    show "outcome (block
            [ hex_assign hx data 15 19 (\<lambda>v r. r\<lparr>remainingAh := Some (of_int v / 10)\<rparr>),
              hex_assign hx data 19 23 (\<lambda>v r. r\<lparr>completeAh := Some (of_int v / 10)\<rparr>),
              hex_assign hx data 23 27 (\<lambda>v r. r\<lparr>designedAh := Some (of_int v / 10)\<rparr>) ] r1)
        = best_effort hx data
            [ ((15, 19), \<lambda>v r. r\<lparr>remainingAh := Some (of_int v / 10)\<rparr>),
              ((19, 23), \<lambda>v r. r\<lparr>completeAh := Some (of_int v / 10)\<rparr>),
              ((23, 27), \<lambda>v r. r\<lparr>designedAh := Some (of_int v / 10)\<rparr>) ] r1"
      by (simp add: hex_assign_def outcome_def split: option.splits)
  qed
  then show ?thesis by (simp add: capacity_fields_def capacity_table_def)
qed

lemma parse_refines:
  assumes "well_formed r" and "length data = 128 \<or> length data = 30"
  shows "parse hx now r data =
     (case best_effort hx data (frame_table data) r of
        (True, r') \<Rightarrow> r'\<lparr>lastUpdatetime := now\<rparr>
      | (False, r') \<Rightarrow> r')"
proof -
  have data: "data \<noteq> []" using assms(2) by auto
  define stmts where
    "stmts = (if length data = 128 then realtime_fields hx data else capacity_fields hx data)"
  have o: "outcome (block stmts r) = best_effort hx data (frame_table data) r"
    using realtime_refines[OF assms(1), of hx data] capacity_refines[of hx data r]
    by (simp add: stmts_def frame_table_def)
  have p: "parse hx now r data = snd (block (stmts @ [stamp now]) r)"
    using assms(2) data
    by (auto simp: parse_def parse_body_def stmts_def realtime_def capacity_def)
  obtain e r1 where b: "block stmts r = (e, r1)" by (cases "block stmts r")
  show ?thesis
    using o[symmetric] b unfolding p
    by (cases e) (simp_all add: block_append outcome_def stamp_def assign_def)
qed

lemma table_regions:
  "map fst realtime_table = rt_fields" "map fst capacity_table = cap_fields"
  by code_simp+

text \<open>
  C7. Take a record of the program and a buffer of 128 or of 30 bytes in which one of
  the regions the decoder reads for that length is no hexadecimal text. Then \<open>parse\<close>
  returns a record (the exception stays inside, \<open>parse\<close> has no other outcome); that
  record is the one the best-effort decode of the frame's field table leaves, that is
  the record given with every field before the first failing region stored and nothing
  of the failing region or of the regions after it; the decode is not complete; and
  \<open>lastUpdatetime\<close> is what it was.
\<close>

theorem parse_aborts_frame_only:
  assumes "well_formed r"
    and "length data = 128 \<and> (\<exists>(a, b) \<in> set rt_fields. hx (slice data a b) = None)
       \<or> length data = 30 \<and> (\<exists>(a, b) \<in> set cap_fields. hx (slice data a b) = None)"
  shows "parse hx now r data = snd (best_effort hx data (frame_table data) r)
       \<and> \<not> fst (best_effort hx data (frame_table data) r)
       \<and> lastUpdatetime (parse hx now r data) = lastUpdatetime r"
proof -
  have len: "length data = 128 \<or> length data = 30" using assms(2) by blast
  have "\<exists>e \<in> set (frame_table data). hx (slice data (fst (fst e)) (snd (fst e))) = None"
  proof -
    have r1: "set rt_fields = fst ` set realtime_table"
      unfolding table_regions(1)[symmetric] by simp
    have r2: "set cap_fields = fst ` set capacity_table"
      unfolding table_regions(2)[symmetric] by simp
    from assms(2) show ?thesis
    proof
      assume "length data = 128 \<and> (\<exists>(a, b) \<in> set rt_fields. hx (slice data a b) = None)"
      then obtain e where "length data = 128" "e \<in> set realtime_table"
        "hx (slice data (fst (fst e)) (snd (fst e))) = None"
        unfolding r1 by auto
      then show ?thesis unfolding frame_table_def by auto
    next
      assume "length data = 30 \<and> (\<exists>(a, b) \<in> set cap_fields. hx (slice data a b) = None)"
      then obtain e where "length data = 30" "e \<in> set capacity_table"
        "hx (slice data (fst (fst e)) (snd (fst e))) = None"
        unfolding r2 by auto
      then show ?thesis unfolding frame_table_def by auto
    qed
  qed
  then have inc: "\<not> fst (best_effort hx data (frame_table data) r)"
    by (simp add: best_effort_complete)
  have "parse hx now r data = snd (best_effort hx data (frame_table data) r)"
    using parse_refines[OF assms(1) len, of hx now] inc
    by (cases "best_effort hx data (frame_table data) r") auto
  then show ?thesis using inc aborted_frame_prefix[OF assms, of now] by simp
qed

theorem parse_aborts_frame_only_witness:
  "length frame_cap_bad = 30 \<and> hexint (slice frame_cap_bad 19 23) = None
   \<and> parse hexint 1000 (new_SupervoltData 0) frame_cap_bad
       = (new_SupervoltData 0)\<lparr>address := Some 0, command := Some 130, version := Some 49,
            length_field := Some 14, remainingAh := Some 100\<rparr>
   \<and> length frame_bad_cell = 128 \<and> hexint (slice frame_bad_cell 33 37) = None
   \<and> parse hexint 1000 (new_SupervoltData 0) frame_bad_cell
       = (new_SupervoltData 0)\<lparr>address := Some 0, command := Some 130, version := Some 49,
            length_field := Some 94, totalV := Some (33 / 5),
            cellV := [Some (33 / 10), Some (33 / 10), None, None, None, None, None, None,
                      None, None, None, None, None, None, None, None]\<rparr>"
proof -
  have a: "well_formed (new_SupervoltData 0)"
    by (simp add: well_formed_def new_SupervoltData_def)
  have l: "length frame_cap_bad = 30" "length frame_bad_cell = 128"
    by (simp_all add: frame_cap_bad_def frame_bad_cell_def)
  have m: "(19, 23) \<in> set cap_fields" "(33, 37) \<in> set rt_fields" by code_simp+
  have n: "hexint (slice frame_cap_bad 19 23) = None"
    "hexint (slice frame_bad_cell 33 37) = None" by code_simp+
  have b: "length frame_cap_bad = 128
             \<and> (\<exists>(a, b) \<in> set rt_fields. hexint (slice frame_cap_bad a b) = None)
           \<or> length frame_cap_bad = 30
             \<and> (\<exists>(a, b) \<in> set cap_fields. hexint (slice frame_cap_bad a b) = None)"
    using l(1) m(1) n(1) by blast
  have c: "length frame_bad_cell = 128
             \<and> (\<exists>(a, b) \<in> set rt_fields. hexint (slice frame_bad_cell a b) = None)
           \<or> length frame_bad_cell = 30
             \<and> (\<exists>(a, b) \<in> set cap_fields. hexint (slice frame_bad_cell a b) = None)"
    using l(2) m(2) n(2) by blast
  have d: "snd (best_effort hexint frame_cap_bad (frame_table frame_cap_bad)
                  (new_SupervoltData 0))
       = (new_SupervoltData 0)\<lparr>address := Some 0, command := Some 130, version := Some 49,
            length_field := Some 14, remainingAh := Some 100\<rparr>"
    by code_simp
  have e: "snd (best_effort hexint frame_bad_cell (frame_table frame_bad_cell)
                  (new_SupervoltData 0))
       = (new_SupervoltData 0)\<lparr>address := Some 0, command := Some 130, version := Some 49,
            length_field := Some 94, totalV := Some (33 / 5),
            cellV := [Some (33 / 10), Some (33 / 10), None, None, None, None, None, None,
                      None, None, None, None, None, None, None, None]\<rparr>"
    by code_simp
  show ?thesis
    using l n d e parse_aborts_frame_only [OF a b, of 1000]
      parse_aborts_frame_only [OF a c, of 1000]
    by simp
qed

end
